theory Spec2Isabelle
  imports Complex_Main "HOL-Library.Monad_Syntax" "HOL-Library.Log_Nat"
begin

section \<open>The photon noise table generator (examples/photon\_noise\_table.c)\<close>

text \<open>
  The tool computes, from an image size, an ISO setting and a transfer function, the
  fourteen luma scaling points of an AV1 film grain descriptor.  This theory embeds the
  transfer function catalogue (\<open>find_transfer_function\<close>) and the synthesizer
  (\<open>generate_photon_noise\<close>) and proves properties of them.

  Conventions of the embedding.
  \<^item> A C \<open>float\<close> is a \<open>real\<close>: arithmetic on floats and the calls into the maths library
    are taken exactly, without rounding and without the bounds of the exponent range.
    The one rounding that is modelled is the conversion of an \<open>int\<close> variable to
    \<open>float\<close> (\<open>float_of_int\<close>), which the language fixes and which changes values
    beyond \<open>2^24\<close>.
  \<^item> A float operation whose C result is a NaN or an infinity returns \<open>None\<close>.  In this
    program every such value flows into a conversion to \<open>int\<close>, whose behaviour is
    undefined; \<open>None\<close> is also the result of a store outside an array.  So \<open>None\<close> reads: the C execution has no
    defined result.
  \<^item> The source's name \<open>linear\<close> is a constant of HOL; the variable is \<open>lin\<close> here.
  \<^item> An \<open>int\<close> is an \<open>int\<close> of HOL; the product \<open>width * height\<close> wraps at 32 bits
    (\<open>int_mul\<close>), and the cast of a float to \<open>int\<close> checks the range.
\<close>

subsection \<open>Integers and floats\<close>

definition INT_MIN :: int where
  "INT_MIN = - 2147483648"

definition INT_MAX :: int where
  "INT_MAX = 2147483647"

text \<open>
  \<open>width * height\<close> on \<open>int\<close>.  The language leaves signed overflow undefined; the
  compiled code keeps the low 32 bits of the product, read in two's complement, and goes
  on, and so does \<open>int_mul\<close>.
\<close>

definition int_mul :: "int \<Rightarrow> int \<Rightarrow> int" where
  "int_mul a b = (a * b + 2147483648) mod 4294967296 - 2147483648"

text \<open>
  The implicit conversion of an \<open>int\<close> to \<open>float\<close>: the nearest value with a 24-bit
  significand, ties to the even significand.  \<open>round_to_even k a\<close> rounds \<open>a\<close> to a
  multiple of \<open>2^k\<close>; \<open>floorlog 2 a\<close> is the number of bits of \<open>a\<close>, of which the
  low \<open>floorlog 2 a - 24\<close> do not fit.
\<close>

definition round_to_even :: "nat \<Rightarrow> nat \<Rightarrow> nat" where
  "round_to_even k a =
     (let q = a div 2 ^ k;
          r = a mod 2 ^ k
      in (if 2 ^ k < 2 * r \<or> (2 * r = 2 ^ k \<and> odd q) then q + 1 else q) * 2 ^ k)"

definition float_of_nat :: "nat \<Rightarrow> nat" where
  "float_of_nat a = round_to_even (floorlog 2 a - 24) a"

definition float_of_int :: "int \<Rightarrow> real" where
  "float_of_int n = (if n < 0 then - real (float_of_nat (nat (- n))) else real (float_of_nat (nat n)))"

text \<open>Float division: a zero divisor gives an infinity or a NaN.\<close>

definition fdiv :: "real \<Rightarrow> real \<Rightarrow> real option" where
  "fdiv a b = (if b = 0 then None else Some (a / b))"

text \<open>
  \<open>powf\<close> at the exponents of this file, which are positive and not integers: NaN on a
  negative base, \<open>0\<close> at \<open>0\<close>.
\<close>

definition powf :: "real \<Rightarrow> real \<Rightarrow> real option" where
  "powf x y = (if x < 0 then None else Some (x powr y))"

definition sqrtf :: "real \<Rightarrow> real option" where
  "sqrtf x = (if x < 0 then None else Some (sqrt x))"

definition logf :: "real \<Rightarrow> real option" where
  "logf x = (if x \<le> 0 then None else Some (ln x))"

text \<open>\<open>roundf\<close> rounds to the nearest integer, halfway cases away from zero.\<close>

definition roundf :: "real \<Rightarrow> real" where
  "roundf x = (if 0 \<le> x then of_int \<lfloor>x + 1 / 2\<rfloor> else - of_int \<lfloor>- x + 1 / 2\<rfloor>)"

text \<open>The cast \<open>(int)\<close> truncates towards zero; outside the range of \<open>int\<close> it is undefined.\<close>

definition int_of_float :: "real \<Rightarrow> int option" where
  "int_of_float x =
     (let t = (if 0 \<le> x then \<lfloor>x\<rfloor> else \<lceil>x\<rceil>)
      in if INT_MIN \<le> t \<and> t \<le> INT_MAX then Some t else None)"

definition maxf :: "real \<Rightarrow> real \<Rightarrow> real" where
  "maxf a b = (if a > b then a else b)"

definition minf :: "real \<Rightarrow> real \<Rightarrow> real" where
  "minf a b = (if a < b then a else b)"

subsection \<open>The transfer functions\<close>

record transfer_function_t =
  to_linear :: "real \<Rightarrow> real option"
  from_linear :: "real \<Rightarrow> real option"
  mid_tone :: real

definition gamma22_to_linear :: "real \<Rightarrow> real option" where
  "gamma22_to_linear g = powf g 2.2"

definition gamma22_from_linear :: "real \<Rightarrow> real option" where
  "gamma22_from_linear l = powf l (1 / 2.2)"

definition gamma28_to_linear :: "real \<Rightarrow> real option" where
  "gamma28_to_linear g = powf g 2.8"

definition gamma28_from_linear :: "real \<Rightarrow> real option" where
  "gamma28_from_linear l = powf l (1 / 2.8)"

definition srgb_to_linear :: "real \<Rightarrow> real option" where
  "srgb_to_linear srgb =
     (if srgb \<le> 0.04045 then Some (srgb / 12.92)
      else powf ((srgb + 0.055) / 1.055) 2.4)"

definition srgb_from_linear :: "real \<Rightarrow> real option" where
  "srgb_from_linear lin =
     (if lin \<le> 0.0031308 then Some (12.92 * lin)
      else do { p \<leftarrow> powf lin (1 / 2.4); Some (1.055 * p - 0.055) })"

definition kPqM1 :: real where "kPqM1 = 2610 / 16384"
definition kPqM2 :: real where "kPqM2 = 128 * 2523 / 4096"
definition kPqC1 :: real where "kPqC1 = 3424 / 4096"
definition kPqC2 :: real where "kPqC2 = 32 * 2413 / 4096"
definition kPqC3 :: real where "kPqC3 = 32 * 2392 / 4096"

definition pq_to_linear :: "real \<Rightarrow> real option" where
  "pq_to_linear pq = do {
     pq_pow_inv_m2 \<leftarrow> powf pq (1 / kPqM2);
     q \<leftarrow> fdiv (maxf 0 (pq_pow_inv_m2 - kPqC1)) (kPqC2 - kPqC3 * pq_pow_inv_m2);
     powf q (1 / kPqM1)
   }"

definition pq_from_linear :: "real \<Rightarrow> real option" where
  "pq_from_linear lin = do {
     linear_pow_m1 \<leftarrow> powf lin kPqM1;
     q \<leftarrow> fdiv (kPqC1 + kPqC2 * linear_pow_m1) (1 + kPqC3 * linear_pow_m1);
     powf q kPqM2
   }"

text \<open>
  Names for the intermediate values of the two PQ functions: \<open>pq_p\<close> is the local
  \<open>pq_pow_inv_m2\<close>, \<open>pq_q\<close> the quotient that \<open>pq_to_linear\<close> raises to \<open>1 / kPqM1\<close>,
  and \<open>pq_g\<close> the quotient that \<open>pq_from_linear\<close> raises to \<open>kPqM2\<close>.
\<close>

definition pq_p :: "real \<Rightarrow> real" where "pq_p x = x powr (1 / kPqM2)"

definition pq_q :: "real \<Rightarrow> real" where
  "pq_q p = maxf 0 (p - kPqC1) / (kPqC2 - kPqC3 * p)"

definition pq_g :: "real \<Rightarrow> real" where
  "pq_g u = (kPqC1 + kPqC2 * u) / (1 + kPqC3 * u)"

definition kHlgA :: real where "kHlgA = 0.17883277"
definition kHlgB :: real where "kHlgB = 0.28466892"
definition kHlgC :: real where "kHlgC = 0.55991073"

text \<open>
  The source writes the cast in front of \<open>exp\<close> as \<open>(flout)\<close>, a name that no file of
  the sources declares; it is read as the cast to \<open>float\<close>, which does not change a real.
\<close>

definition hlg_to_linear :: "real \<Rightarrow> real option" where
  "hlg_to_linear hlg =
     (let lin = (if hlg \<le> 0.5 then hlg * hlg / 3
                 else (exp ((hlg - kHlgC) / kHlgA) + kHlgB) / 12)
      in powf lin 1.2)"

definition hlg_from_linear :: "real \<Rightarrow> real option" where
  "hlg_from_linear lin0 = do {
     lin \<leftarrow> powf lin0 (1 / 1.2);
     if lin \<le> 1 / 12 then sqrtf (3 * lin)
     else do { g \<leftarrow> logf (12 * lin - kHlgB); Some (kHlgA * g + kHlgC) }
   }"

definition kGamma22TransferFunction :: transfer_function_t where
  "kGamma22TransferFunction =
     \<lparr>to_linear = gamma22_to_linear, from_linear = gamma22_from_linear, mid_tone = 0.18\<rparr>"

definition kGamma28TransferFunction :: transfer_function_t where
  "kGamma28TransferFunction =
     \<lparr>to_linear = gamma28_to_linear, from_linear = gamma28_from_linear, mid_tone = 0.18\<rparr>"

definition kSRgbTransferFunction :: transfer_function_t where
  "kSRgbTransferFunction =
     \<lparr>to_linear = srgb_to_linear, from_linear = srgb_from_linear, mid_tone = 0.18\<rparr>"

definition kPqTransferFunction :: transfer_function_t where
  "kPqTransferFunction =
     \<lparr>to_linear = pq_to_linear, from_linear = pq_from_linear, mid_tone = 26 / 10000\<rparr>"

definition kHlgTransferFunction :: transfer_function_t where
  "kHlgTransferFunction =
     \<lparr>to_linear = hlg_to_linear, from_linear = hlg_from_linear, mid_tone = 26 / 1000\<rparr>"

text \<open>
  Modelled from the spec: the enumeration \<open>aom_transfer_characteristics_t\<close> is declared
  in a header that is not among the sources.  Its five members that the switch of
  \<open>find_transfer_function\<close> names are constructors; \<open>AOM_CICP_TC_other n\<close> is any other
  value \<open>n\<close> of the enumeration.
\<close>

datatype aom_transfer_characteristics_t =
    AOM_CICP_TC_BT_470_M
  | AOM_CICP_TC_BT_470_B_G
  | AOM_CICP_TC_SRGB
  | AOM_CICP_TC_SMPTE_2084
  | AOM_CICP_TC_HLG
  | AOM_CICP_TC_other int

text \<open>\<open>fatal\<close> prints its message and ends the process: the format and its argument.\<close>

datatype fatal = Fatal string aom_transfer_characteristics_t

fun find_transfer_function :: "aom_transfer_characteristics_t \<Rightarrow> fatal + transfer_function_t" where
  "find_transfer_function AOM_CICP_TC_BT_470_M = Inr kGamma22TransferFunction"
| "find_transfer_function AOM_CICP_TC_BT_470_B_G = Inr kGamma28TransferFunction"
| "find_transfer_function AOM_CICP_TC_SRGB = Inr kSRgbTransferFunction"
| "find_transfer_function AOM_CICP_TC_SMPTE_2084 = Inr kPqTransferFunction"
| "find_transfer_function AOM_CICP_TC_HLG = Inr kHlgTransferFunction"
| "find_transfer_function tc = Inl (Fatal ''unimplemented transfer function %d'' tc)"

subsection \<open>The arguments and the film grain descriptor\<close>

record photon_noise_args_t =
  width :: int
  height :: int
  iso_setting :: int
  transfer_function :: transfer_function_t
  output_filename :: string

text \<open>
  Modelled from the spec: the struct \<open>aom_film_grain_t\<close> is declared in a header that is
  not among the sources.  The record has the fields that \<open>generate_photon_noise\<close>
  assigns, and the luma autoregressive coefficients \<open>ar_coeffs_y\<close>.  Whatever else the
  struct holds is the extension of the record (\<open>more\<close>), which no function here touches.
  An array is a list; \<open>scaling_points_y\<close> is a list of rows \<open>(x, noise)\<close>.
\<close>

record aom_film_grain_t =
  apply_grain :: int
  update_parameters :: int
  scaling_points_y :: "(int \<times> int) list"
  num_y_points :: int
  num_cb_points :: int
  num_cr_points :: int
  scaling_shift :: int
  ar_coeff_lag :: int
  ar_coeffs_y :: "int list"
  ar_coeffs_cb :: "int list"
  ar_coeffs_cr :: "int list"
  ar_coeff_shift :: int
  cb_mult :: int
  cb_luma_mult :: int
  cb_offset :: int
  cr_mult :: int
  cr_luma_mult :: int
  cr_offset :: int
  overlap_flag :: int
  chroma_scaling_from_luma :: int
  random_seed :: int

text \<open>A store \<open>a[i] = v\<close>; outside the array it is undefined.\<close>

definition array_store :: "'a list \<Rightarrow> int \<Rightarrow> 'a \<Rightarrow> 'a list option" where
  "array_store a i v = (if 0 \<le> i \<and> nat i < length a then Some (a[nat i := v]) else None)"

subsection \<open>The synthesizer\<close>

definition kPhotonsPerLxSPerUm2 :: real where "kPhotonsPerLxSPerUm2 = 11260"
definition kEffectiveQuantumEfficiency :: real where "kEffectiveQuantumEfficiency = 0.20"
definition kPhotoResponseNonUniformity :: real where "kPhotoResponseNonUniformity = 0.005"
definition kInputReferredReadNoise :: real where "kInputReferredReadNoise = 1.5"

definition mid_tone_exposure :: "photon_noise_args_t \<Rightarrow> real option" where
  "mid_tone_exposure args = fdiv 10 (float_of_int (iso_setting args))"

definition pixel_area_um2 :: "photon_noise_args_t \<Rightarrow> real option" where
  "pixel_area_um2 args =
     fdiv (36000 * 24000) (float_of_int (int_mul (width args) (height args)))"

definition mid_tone_electrons_per_pixel :: "photon_noise_args_t \<Rightarrow> real option" where
  "mid_tone_electrons_per_pixel args = do {
     exposure \<leftarrow> mid_tone_exposure args;
     area \<leftarrow> pixel_area_um2 args;
     Some (kEffectiveQuantumEfficiency * kPhotonsPerLxSPerUm2 * exposure * area)
   }"

definition max_electrons_per_pixel :: "photon_noise_args_t \<Rightarrow> real option" where
  "max_electrons_per_pixel args = do {
     mid_tone_electrons \<leftarrow> mid_tone_electrons_per_pixel args;
     fdiv mid_tone_electrons (mid_tone (transfer_function args))
   }"

text \<open>
  The body of the loop, local by local.  \<open>n\<close> is \<open>film_grain->num_y_points\<close> and
  \<open>max_e\<close> is \<open>max_electrons_per_pixel\<close>.
\<close>

definition sample_x :: "int \<Rightarrow> int \<Rightarrow> real option" where
  "sample_x n i = fdiv (float_of_int i) (float_of_int n - 1)"

definition noise_in_electrons :: "real \<Rightarrow> real option" where
  "noise_in_electrons electrons_per_pixel =
     sqrtf (kInputReferredReadNoise * kInputReferredReadNoise +
            electrons_per_pixel +
            (kPhotoResponseNonUniformity * kPhotoResponseNonUniformity *
             electrons_per_pixel * electrons_per_pixel))"

text \<open>The locals \<open>x\<close>, \<open>linear\<close> and \<open>linear_noise\<close> of iteration \<open>i\<close>.\<close>

definition sample_noise ::
  "photon_noise_args_t \<Rightarrow> real \<Rightarrow> int \<Rightarrow> int \<Rightarrow> (real \<times> real \<times> real) option" where
  "sample_noise args max_e n i = do {
     x \<leftarrow> sample_x n i;
     lin \<leftarrow> to_linear (transfer_function args) x;
     noise \<leftarrow> noise_in_electrons (max_e * lin);
     linear_noise \<leftarrow> fdiv noise max_e;
     Some (x, lin, linear_noise)
   }"

definition linear_range_start :: "real \<Rightarrow> real \<Rightarrow> real" where
  "linear_range_start lin linear_noise = maxf 0 (lin - 2 * linear_noise)"

definition linear_range_end :: "real \<Rightarrow> real \<Rightarrow> real" where
  "linear_range_end lin linear_noise = minf 1 (lin + 2 * linear_noise)"

definition tf_slope :: "transfer_function_t \<Rightarrow> real \<Rightarrow> real \<Rightarrow> real option" where
  "tf_slope tf range_start range_end = do {
     e \<leftarrow> from_linear tf range_end;
     s \<leftarrow> from_linear tf range_start;
     fdiv (e - s) (range_end - range_start)
   }"

text \<open>The locals \<open>x\<close> and \<open>encoded_noise\<close> of iteration \<open>i\<close>, before they are quantized.\<close>

definition encoded_noise ::
  "photon_noise_args_t \<Rightarrow> real \<Rightarrow> int \<Rightarrow> int \<Rightarrow> (real \<times> real) option" where
  "encoded_noise args max_e n i = do {
     (x, lin, linear_noise) \<leftarrow> sample_noise args max_e n i;
     slope \<leftarrow> tf_slope (transfer_function args)
                (linear_range_start lin linear_noise) (linear_range_end lin linear_noise);
     Some (x, linear_noise * slope)
   }"

text \<open>The row \<open>scaling_points_y[i]\<close> that iteration \<open>i\<close> stores.\<close>

definition scaling_point ::
  "photon_noise_args_t \<Rightarrow> real \<Rightarrow> int \<Rightarrow> int \<Rightarrow> (int \<times> int) option" where
  "scaling_point args max_e n i = do {
     (x, encoded) \<leftarrow> encoded_noise args max_e n i;
     x_int \<leftarrow> int_of_float (roundf (255 * x));
     noise_int \<leftarrow> int_of_float (minf 255 (roundf (255 * 7.88 * encoded)));
     Some (x_int, noise_int)
   }"

function photon_noise_loop ::
  "photon_noise_args_t \<Rightarrow> real \<Rightarrow> int \<Rightarrow> 'a aom_film_grain_t_scheme
     \<Rightarrow> 'a aom_film_grain_t_scheme option" where
  "photon_noise_loop args max_e i film_grain =
     (if i < num_y_points film_grain then
        (case scaling_point args max_e (num_y_points film_grain) i of
           None \<Rightarrow> None
         | Some row \<Rightarrow>
            (case array_store (scaling_points_y film_grain) i row of
               None \<Rightarrow> None
             | Some rows \<Rightarrow>
                 photon_noise_loop args max_e (i + 1) (film_grain\<lparr>scaling_points_y := rows\<rparr>)))
      else Some film_grain)"
  by pat_completeness auto
termination
  by (relation "measure (\<lambda>(args, max_e, i, film_grain). nat (num_y_points film_grain - i))") auto

definition generate_photon_noise ::
  "photon_noise_args_t \<Rightarrow> 'a aom_film_grain_t_scheme \<Rightarrow> 'a aom_film_grain_t_scheme option" where
  "generate_photon_noise args film_grain = do {
     max_e \<leftarrow> max_electrons_per_pixel args;
     fg \<leftarrow> photon_noise_loop args max_e 0 (film_grain\<lparr>num_y_points := 14\<rparr>);
     cb \<leftarrow> array_store (ar_coeffs_cb fg) 0 0;
     cr \<leftarrow> array_store (ar_coeffs_cr fg) 0 0;
     Some (fg\<lparr>apply_grain := 1,
              update_parameters := 1,
              num_cb_points := 0,
              num_cr_points := 0,
              scaling_shift := 8,
              ar_coeff_lag := 0,
              ar_coeffs_cb := cb,
              ar_coeffs_cr := cr,
              ar_coeff_shift := 6,
              cb_mult := 0,
              cb_luma_mult := 0,
              cb_offset := 0,
              cr_mult := 0,
              cr_luma_mult := 0,
              cr_offset := 0,
              overlap_flag := 1,
              random_seed := 7391,
              chroma_scaling_from_luma := 0\<rparr>)
   }"

text \<open>
  \<open>main\<close> clears the descriptor with \<open>memset\<close> before the call: every field of the
  record becomes zero, an array keeps its size.
\<close>

definition memset_film_grain :: "'a aom_film_grain_t_scheme \<Rightarrow> 'a aom_film_grain_t_scheme" where
  "memset_film_grain film_grain =
     film_grain\<lparr>apply_grain := 0,
                update_parameters := 0,
                scaling_points_y := map (\<lambda>_. (0, 0)) (scaling_points_y film_grain),
                num_y_points := 0,
                num_cb_points := 0,
                num_cr_points := 0,
                scaling_shift := 0,
                ar_coeff_lag := 0,
                ar_coeffs_y := map (\<lambda>_. 0) (ar_coeffs_y film_grain),
                ar_coeffs_cb := map (\<lambda>_. 0) (ar_coeffs_cb film_grain),
                ar_coeffs_cr := map (\<lambda>_. 0) (ar_coeffs_cr film_grain),
                ar_coeff_shift := 0,
                cb_mult := 0,
                cb_luma_mult := 0,
                cb_offset := 0,
                cr_mult := 0,
                cr_luma_mult := 0,
                cr_offset := 0,
                overlap_flag := 0,
                chroma_scaling_from_luma := 0,
                random_seed := 0\<rparr>"

definition main_film_grain ::
  "photon_noise_args_t \<Rightarrow> 'a aom_film_grain_t_scheme \<Rightarrow> 'a aom_film_grain_t_scheme option" where
  "main_film_grain args film_grain = generate_photon_noise args (memset_film_grain film_grain)"

text \<open>The row that a call leaves at index \<open>i\<close> of \<open>scaling_points_y\<close>.\<close>

definition emitted_point ::
  "photon_noise_args_t \<Rightarrow> 'a aom_film_grain_t_scheme \<Rightarrow> nat \<Rightarrow> (int \<times> int) option" where
  "emitted_point args film_grain i = do {
     fg \<leftarrow> generate_photon_noise args film_grain;
     Some (scaling_points_y fg ! i)
   }"

subsection \<open>The catalogue, and the pipeline as the specification words it\<close>

definition transfer_function_catalog :: "transfer_function_t list" where
  "transfer_function_catalog =
     [kGamma22TransferFunction, kGamma28TransferFunction, kSRgbTransferFunction,
      kPqTransferFunction, kHlgTransferFunction]"

text \<open>
  The reference pipeline of the specification (section 4.2, steps 1 to 6), for an ISO
  setting \<open>iso_value\<close> and a number of pixels \<open>pixels\<close>, at the sample point \<open>i / 13\<close>:
  exposure, pixel area, mid-tone and full-scale electrons, electrons at the sample,
  noise in quadrature, the interval of two noise amplitudes to either side clipped to
  \<open>[0, 1]\<close>, the slope of \<open>from_linear\<close> across it, the noise in the encoded domain.
\<close>

definition reference_encoded_noise ::
  "transfer_function_t \<Rightarrow> real \<Rightarrow> real \<Rightarrow> nat \<Rightarrow> real option" where
  "reference_encoded_noise tf iso_value pixels i = do {
     let exposure = 10 / iso_value;
     let area = (36000 * 24000) / pixels;
     let mid_tone_electrons = 0.20 * 11260 * exposure * area;
     let full_scale_electrons = mid_tone_electrons / mid_tone tf;
     lin \<leftarrow> to_linear tf (real i / 13);
     let electrons = full_scale_electrons * lin;
     let noise = sqrt (1.5\<^sup>2 + electrons + (0.005 * electrons)\<^sup>2);
     let linear_noise = noise / full_scale_electrons;
     let lo = max 0 (lin - 2 * linear_noise);
     let hi = min 1 (lin + 2 * linear_noise);
     f_hi \<leftarrow> from_linear tf hi;
     f_lo \<leftarrow> from_linear tf lo;
     let slope = (f_hi - f_lo) / (hi - lo);
     Some (linear_noise * slope)
   }"

definition reference_noise_amplitude ::
  "transfer_function_t \<Rightarrow> real \<Rightarrow> real \<Rightarrow> nat \<Rightarrow> int option" where
  "reference_noise_amplitude tf iso_value pixels i = do {
     encoded \<leftarrow> reference_encoded_noise tf iso_value pixels i;
     Some (round (255 * 7.88 * encoded))
   }"

text \<open>
  The HLG curve as the specification words it: the canonical OETF with the constants
  \<open>a = 0.17883277\<close>, \<open>b = 0.28466892\<close>, \<open>c = 0.55991073\<close>, its inverse, and the OOTF
  that is the system gamma \<open>1.2\<close>, with its inverse.
\<close>

definition hlg_oetf :: "real \<Rightarrow> real option" where
  "hlg_oetf e =
     (if e \<le> 1 / 12 then sqrtf (3 * e)
      else do { g \<leftarrow> logf (12 * e - 0.28466892); Some (0.17883277 * g + 0.55991073) })"

definition hlg_oetf_inverse :: "real \<Rightarrow> real" where
  "hlg_oetf_inverse v =
     (if v \<le> 1 / 2 then v\<^sup>2 / 3 else (exp ((v - 0.55991073) / 0.17883277) + 0.28466892) / 12)"

definition hlg_ootf :: "real \<Rightarrow> real option" where
  "hlg_ootf x = powf x 1.2"

definition hlg_ootf_inverse :: "real \<Rightarrow> real option" where
  "hlg_ootf_inverse x = powf x (1 / 1.2)"

text \<open>
  The invocation of the usage comment of the source,
  \<open>--width=3840 --height=2160 --iso=25600 -o noise.tbl\<close>, with the default transfer
  function, and a descriptor as \<open>main\<close> holds it: \<open>scaling_points_y\<close> has 14 rows; the
  coefficient arrays have the sizes 24 and 25 here, of which the synthesizer needs only
  that the chroma arrays are not empty.
\<close>

definition usage_args :: photon_noise_args_t where
  "usage_args =
     \<lparr>width = 3840, height = 2160, iso_setting = 25600,
      transfer_function = kSRgbTransferFunction, output_filename = ''noise.tbl''\<rparr>"

definition blank_film_grain :: aom_film_grain_t where
  "blank_film_grain =
     \<lparr>apply_grain = 0, update_parameters = 0,
      scaling_points_y = replicate 14 (0, 0), num_y_points = 0,
      num_cb_points = 0, num_cr_points = 0, scaling_shift = 0, ar_coeff_lag = 0,
      ar_coeffs_y = replicate 24 0, ar_coeffs_cb = replicate 25 0, ar_coeffs_cr = replicate 25 0,
      ar_coeff_shift = 0, cb_mult = 0, cb_luma_mult = 0, cb_offset = 0,
      cr_mult = 0, cr_luma_mult = 0, cr_offset = 0,
      overlap_flag = 0, chroma_scaling_from_luma = 0, random_seed = 0\<rparr>"

section \<open>Properties\<close>

subsection \<open>The conversion from int to float\<close>

lemma round_to_even_mono: "a \<le> b \<Longrightarrow> round_to_even k a \<le> round_to_even k b"
proof -
  assume ab: "a \<le> b"
  let ?m = "(2::nat) ^ k"
  have qle: "a div ?m \<le> b div ?m" using ab by (rule div_le_mono)
  show ?thesis
  proof (cases "a div ?m < b div ?m")
    case True
    have "round_to_even k a \<le> (a div ?m + 1) * ?m"
      by (simp add: round_to_even_def Let_def)
    also have "\<dots> \<le> (b div ?m) * ?m" using True by (intro mult_le_mono1) simp
    also have "\<dots> \<le> round_to_even k b" by (simp add: round_to_even_def Let_def)
    finally show ?thesis .
  next
    case False
    with qle have q: "a div ?m = b div ?m" by simp
    have "a mod ?m \<le> b mod ?m"
    proof -
      have "a div ?m * ?m + a mod ?m \<le> b div ?m * ?m + b mod ?m"
        using ab by (simp only: div_mult_mod_eq)
      with q show ?thesis by simp
    qed
    then show ?thesis using q by (auto simp: round_to_even_def Let_def)
  qed
qed

lemma round_to_even_le_multiple:
  assumes "a \<le> c * 2 ^ k" shows "round_to_even k a \<le> c * 2 ^ k"
proof -
  let ?m = "(2::nat) ^ k"
  have qc: "a div ?m \<le> c"
    using assms by (metis div_le_mono div_mult_self_is_m zero_less_numeral zero_less_power)
  show ?thesis
  proof (cases "a div ?m < c")
    case True
    have "round_to_even k a \<le> (a div ?m + 1) * ?m"
      by (simp add: round_to_even_def Let_def)
    also have "\<dots> \<le> c * ?m" using True by (intro mult_le_mono1) simp
    finally show ?thesis .
  next
    case False
    with qc have q: "a div ?m = c" by simp
    have "a div ?m * ?m + a mod ?m \<le> c * ?m"
      using assms by (simp only: div_mult_mod_eq)
    with q have "a mod ?m = 0" by simp
    then show ?thesis using q by (simp add: round_to_even_def Let_def)
  qed
qed

lemma round_to_even_ge_multiple:
  assumes "c * 2 ^ k \<le> a" shows "c * 2 ^ k \<le> round_to_even k a"
proof -
  let ?m = "(2::nat) ^ k"
  have "c \<le> a div ?m"
    using assms by (metis div_le_mono div_mult_self_is_m zero_less_numeral zero_less_power)
  then have "c * ?m \<le> (a div ?m) * ?m" by (rule mult_le_mono1)
  also have "\<dots> \<le> round_to_even k a" by (simp add: round_to_even_def Let_def)
  finally show ?thesis .
qed

lemma float_of_nat_small: "a < 2 ^ 24 \<Longrightarrow> float_of_nat a = a"
proof -
  assume "a < 2 ^ 24"
  then have "floorlog 2 a \<le> 24" by (simp add: floorlog_le_iff)
  then show ?thesis by (simp add: float_of_nat_def round_to_even_def)
qed

text \<open>Rounding keeps the order: within one exponent and across exponents.\<close>

lemma float_of_nat_mono: "a \<le> b \<Longrightarrow> float_of_nat a \<le> float_of_nat b"
proof -
  assume ab: "a \<le> b"
  let ?ka = "floorlog 2 a - 24" and ?kb = "floorlog 2 b - 24"
  have k: "?ka \<le> ?kb" using floorlog_mono[OF ab, of 2] by simp
  show ?thesis
  proof (cases "?ka = ?kb")
    case True
    then show ?thesis using round_to_even_mono[OF ab] by (simp add: float_of_nat_def)
  next
    case False
    with k have lt: "?ka < ?kb" by simp
    then have bpos: "0 < b" by (cases "b = 0") (simp_all add: floorlog_def)
    have "a < 2 ^ (?ka + 24)"
    proof (cases "a = 0")
      case True then show ?thesis by simp
    next
      case False
      then have "a < 2 ^ floorlog 2 a" using floorlog_bounds[of a 2] by simp
      also have "(2::nat) ^ floorlog 2 a \<le> 2 ^ (?ka + 24)" by (intro power_increasing) simp_all
      finally show ?thesis .
    qed
    then have "a \<le> 2 ^ 24 * 2 ^ ?ka" by (simp add: power_add mult.commute)
    then have 1: "float_of_nat a \<le> 2 ^ 24 * 2 ^ ?ka"
      unfolding float_of_nat_def by (rule round_to_even_le_multiple)
    have "(2::nat) ^ 24 * 2 ^ ?ka = 2 ^ (?ka + 24)" by (simp add: power_add)
    also have "\<dots> \<le> 2 ^ (?kb + 23)" using lt by (intro power_increasing) simp_all
    finally have 2: "(2::nat) ^ 24 * 2 ^ ?ka \<le> 2 ^ 23 * 2 ^ ?kb"
      by (simp add: power_add mult.commute)
    have fb: "floorlog 2 b = ?kb + 24" using lt by simp
    have e: "floorlog 2 b - 1 = ?kb + 23" using fb by linarith
    have "2 ^ (floorlog 2 b - 1) \<le> b" using floorlog_bounds[of b 2] bpos by simp
    then have "2 ^ (?kb + 23) \<le> b" by (simp only: e)
    then have "2 ^ 23 * 2 ^ ?kb \<le> b" by (simp add: power_add mult.commute)
    then have 3: "2 ^ 23 * 2 ^ ?kb \<le> float_of_nat b"
      unfolding float_of_nat_def by (rule round_to_even_ge_multiple)
    from 1 2 3 show ?thesis by linarith
  qed
qed

lemma float_of_nat_pos: "0 < a \<Longrightarrow> 0 < float_of_nat a"
proof -
  assume "0 < a"
  then have "1 \<le> a" by simp
  then have "float_of_nat 1 \<le> float_of_nat a" by (rule float_of_nat_mono)
  moreover have "float_of_nat 1 = 1" by (rule float_of_nat_small) simp
  ultimately show ?thesis by simp
qed

lemma float_of_int_small: "0 \<le> n \<Longrightarrow> n < 2 ^ 24 \<Longrightarrow> float_of_int n = of_int n"
proof -
  assume n: "0 \<le> n" "n < 2 ^ 24"
  then have "nat n < nat (2 ^ 24)" by (intro iffD2[OF nat_less_eq_zless]) simp_all
  then have "nat n < 2 ^ 24" by simp
  then have "float_of_nat (nat n) = nat n" by (rule float_of_nat_small)
  with n show ?thesis by (simp add: float_of_int_def)
qed

lemma float_of_int_pos: "0 < n \<Longrightarrow> 0 < float_of_int n"
proof -
  assume n: "0 < n"
  then have "0 < nat n" by simp
  then have "0 < float_of_nat (nat n)" by (rule float_of_nat_pos)
  with n show ?thesis by (simp add: float_of_int_def)
qed


subsection \<open>The loop\<close>

declare photon_noise_loop.simps [simp del]

lemma array_store_Some:
  "array_store a i v = Some a' \<longleftrightarrow> 0 \<le> i \<and> nat i < length a \<and> a' = a[nat i := v]"
  by (auto simp: array_store_def)

lemma photon_noise_loop_frame:
  "photon_noise_loop args m i fg = Some fg' \<Longrightarrow> fg' = fg\<lparr>scaling_points_y := scaling_points_y fg'\<rparr>"
proof (induction args m i fg arbitrary: fg' rule: photon_noise_loop.induct)
  case (1 args m i fg)
  show ?case
  proof (cases "i < num_y_points fg")
    case False
    with "1.prems" show ?thesis by (simp add: photon_noise_loop.simps)
  next
    case True
    from "1.prems" True obtain row rows where
      row: "scaling_point args m (num_y_points fg) i = Some row" and
      rows: "array_store (scaling_points_y fg) i row = Some rows" and
      rest: "photon_noise_loop args m (i + 1) (fg\<lparr>scaling_points_y := rows\<rparr>) = Some fg'"
      by (subst (asm) photon_noise_loop.simps) (auto split: option.splits)
    from "1.IH"[OF True row rows rest]
    have "fg' = fg\<lparr>scaling_points_y := rows\<rparr>\<lparr>scaling_points_y := scaling_points_y fg'\<rparr>" .
    then show ?thesis by simp
  qed
qed

lemma photon_noise_loop_rows:
  "photon_noise_loop args m i fg = Some fg' \<Longrightarrow> 0 \<le> i \<Longrightarrow>
   length (scaling_points_y fg') = length (scaling_points_y fg) \<and>
   (\<forall>j. i \<le> j \<and> j < num_y_points fg \<longrightarrow>
      nat j < length (scaling_points_y fg) \<and>
      scaling_point args m (num_y_points fg) j = Some (scaling_points_y fg' ! nat j)) \<and>
   (\<forall>k. int k < i \<or> num_y_points fg \<le> int k \<longrightarrow>
      scaling_points_y fg' ! k = scaling_points_y fg ! k)"
proof (induction args m i fg arbitrary: fg' rule: photon_noise_loop.induct)
  case (1 args m i fg)
  show ?case
  proof (cases "i < num_y_points fg")
    case False
    with "1.prems" show ?thesis by (auto simp add: photon_noise_loop.simps)
  next
    case True
    from "1.prems" True obtain row rows where
      row: "scaling_point args m (num_y_points fg) i = Some row" and
      rows: "array_store (scaling_points_y fg) i row = Some rows" and
      rest: "photon_noise_loop args m (i + 1) (fg\<lparr>scaling_points_y := rows\<rparr>) = Some fg'"
      by (subst (asm) photon_noise_loop.simps) (auto split: option.splits)
    from rows have i: "nat i < length (scaling_points_y fg)"
      and rows_eq: "rows = (scaling_points_y fg)[nat i := row]"
      by (simp_all add: array_store_Some)
    from "1.prems" have i0: "0 \<le> i" by simp
    then have "0 \<le> i + 1" by simp
    note ih = "1.IH"[OF True row rows rest this, simplified]
    have len: "length (scaling_points_y fg') = length rows"
      using ih by blast
    have later: "nat j < length rows \<and>
             scaling_point args m (num_y_points fg) j = Some (scaling_points_y fg' ! nat j)"
      if "i + 1 \<le> j" "j < num_y_points fg" for j
      using ih that by blast
    have other: "scaling_points_y fg' ! k = rows ! k"
      if "int k \<le> i \<or> num_y_points fg \<le> int k" for k
      using ih that by blast
    have here: "scaling_points_y fg' ! nat i = row"
      using other[of "nat i"] "1.prems" i by (simp add: rows_eq)
    show ?thesis
    proof (intro conjI allI impI)
      show "length (scaling_points_y fg') = length (scaling_points_y fg)"
        using len by (simp add: rows_eq)
    next
      fix j assume j: "i \<le> j \<and> j < num_y_points fg"
      show "nat j < length (scaling_points_y fg)"
        using later[of j] j i by (cases "j = i") (simp_all add: rows_eq)
      show "scaling_point args m (num_y_points fg) j = Some (scaling_points_y fg' ! nat j)"
        using later[of j] j row here by (cases "j = i") simp_all
    next
      fix k assume k: "int k < i \<or> num_y_points fg \<le> int k"
      then have "k \<noteq> nat i" using True i0 by (auto split: if_splits)
      moreover have "scaling_points_y fg' ! k = rows ! k" using other[of k] k by linarith
      ultimately show "scaling_points_y fg' ! k = scaling_points_y fg ! k"
        by (simp add: rows_eq)
    qed
  qed
qed

lemma photon_noise_loop_total:
  "0 \<le> i \<Longrightarrow> num_y_points fg \<le> int (length (scaling_points_y fg)) \<Longrightarrow>
   (\<And>j. i \<le> j \<Longrightarrow> j < num_y_points fg \<Longrightarrow> scaling_point args m (num_y_points fg) j \<noteq> None) \<Longrightarrow>
   photon_noise_loop args m i fg \<noteq> None"
proof (induction args m i fg rule: photon_noise_loop.induct)
  case (1 args m i fg)
  show ?case
  proof (cases "i < num_y_points fg")
    case False
    then show ?thesis by (simp add: photon_noise_loop.simps)
  next
    case True
    from "1.prems"(3)[of i] True obtain row where
      row: "scaling_point args m (num_y_points fg) i = Some row" by auto
    have rows: "array_store (scaling_points_y fg) i row = Some ((scaling_points_y fg)[nat i := row])"
      using "1.prems"(1,2) True by (simp add: array_store_def)
    have "photon_noise_loop args m (i + 1) (fg\<lparr>scaling_points_y := (scaling_points_y fg)[nat i := row]\<rparr>) \<noteq> None"
      using "1.prems" by (intro "1.IH"[OF True row rows]) simp_all
    then show ?thesis
      using True row rows by (subst photon_noise_loop.simps) simp
  qed
qed

subsection \<open>What a call of the synthesizer returns\<close>

lemma generate_photon_noise_Some:
  assumes "generate_photon_noise args fg = Some fg'"
  shows "\<exists>m. max_electrons_per_pixel args = Some m \<and>
       14 \<le> length (scaling_points_y fg) \<and>
       length (scaling_points_y fg') = length (scaling_points_y fg) \<and>
       (\<forall>j. 0 \<le> j \<and> j < 14 \<longrightarrow>
          scaling_point args m 14 j = Some (scaling_points_y fg' ! nat j)) \<and>
       (\<forall>k. 14 \<le> k \<longrightarrow> scaling_points_y fg' ! k = scaling_points_y fg ! k) \<and>
       ar_coeffs_cb fg \<noteq> [] \<and> ar_coeffs_cr fg \<noteq> [] \<and>
       fg' = fg\<lparr>apply_grain := 1,
                 update_parameters := 1,
                 scaling_points_y := scaling_points_y fg',
                 num_y_points := 14,
                 num_cb_points := 0,
                 num_cr_points := 0,
                 scaling_shift := 8,
                 ar_coeff_lag := 0,
                 ar_coeffs_cb := (ar_coeffs_cb fg)[0 := 0],
                 ar_coeffs_cr := (ar_coeffs_cr fg)[0 := 0],
                 ar_coeff_shift := 6,
                 cb_mult := 0,
                 cb_luma_mult := 0,
                 cb_offset := 0,
                 cr_mult := 0,
                 cr_luma_mult := 0,
                 cr_offset := 0,
                 overlap_flag := 1,
                 chroma_scaling_from_luma := 0,
                 random_seed := 7391\<rparr>"
proof -
  let ?fg0 = "fg\<lparr>num_y_points := 14\<rparr>"
  from assms obtain m fg1 cb cr where
    m: "max_electrons_per_pixel args = Some m" and
    loop: "photon_noise_loop args m 0 ?fg0 = Some fg1" and
    cb: "array_store (ar_coeffs_cb fg1) 0 0 = Some cb" and
    cr: "array_store (ar_coeffs_cr fg1) 0 0 = Some cr" and
    fg': "fg' = fg1\<lparr>apply_grain := 1, update_parameters := 1, num_cb_points := 0,
              num_cr_points := 0, scaling_shift := 8, ar_coeff_lag := 0,
              ar_coeffs_cb := cb, ar_coeffs_cr := cr, ar_coeff_shift := 6,
              cb_mult := 0, cb_luma_mult := 0, cb_offset := 0,
              cr_mult := 0, cr_luma_mult := 0, cr_offset := 0,
              overlap_flag := 1, random_seed := 7391, chroma_scaling_from_luma := 0\<rparr>"
    by (auto simp: generate_photon_noise_def bind_eq_Some_conv)
  from photon_noise_loop_frame[OF loop]
  have fg1: "fg1 = fg\<lparr>num_y_points := 14, scaling_points_y := scaling_points_y fg1\<rparr>" by simp
  have cb1: "ar_coeffs_cb fg1 = ar_coeffs_cb fg" and cr1: "ar_coeffs_cr fg1 = ar_coeffs_cr fg"
    by (subst fg1, simp)+
  from photon_noise_loop_rows[OF loop]
  have len: "length (scaling_points_y fg1) = length (scaling_points_y fg)"
    and rows: "\<And>j. 0 \<le> j \<Longrightarrow> j < 14 \<Longrightarrow> nat j < length (scaling_points_y fg) \<and>
                 scaling_point args m 14 j = Some (scaling_points_y fg1 ! nat j)"
    and other: "\<And>k. 14 \<le> int k \<Longrightarrow> scaling_points_y fg1 ! k = scaling_points_y fg ! k"
    by simp_all
  have pts: "scaling_points_y fg' = scaling_points_y fg1" by (simp add: fg')
  have "nat 13 < length (scaling_points_y fg)" using rows[of 13] by simp
  then have l14: "14 \<le> length (scaling_points_y fg)" by simp
  from cb cr have cbs: "ar_coeffs_cb fg \<noteq> []" "cb = (ar_coeffs_cb fg)[0 := 0]"
    and crs: "ar_coeffs_cr fg \<noteq> []" "cr = (ar_coeffs_cr fg)[0 := 0]"
    by (auto simp: array_store_Some cb1 cr1)
  have eq: "fg' = fg\<lparr>apply_grain := 1,
                 update_parameters := 1,
                 scaling_points_y := scaling_points_y fg',
                 num_y_points := 14,
                 num_cb_points := 0,
                 num_cr_points := 0,
                 scaling_shift := 8,
                 ar_coeff_lag := 0,
                 ar_coeffs_cb := (ar_coeffs_cb fg)[0 := 0],
                 ar_coeffs_cr := (ar_coeffs_cr fg)[0 := 0],
                 ar_coeff_shift := 6,
                 cb_mult := 0,
                 cb_luma_mult := 0,
                 cb_offset := 0,
                 cr_mult := 0,
                 cr_luma_mult := 0,
                 cr_offset := 0,
                 overlap_flag := 1,
                 chroma_scaling_from_luma := 0,
                 random_seed := 7391\<rparr>"
    unfolding pts by (subst fg', subst fg1) (simp add: cbs crs)
  show ?thesis
    using m l14 len rows other cbs(1) crs(1) eq by (intro exI[of _ m] conjI) (auto simp: pts)
qed

lemma generate_photon_noise_total:
  assumes "max_electrons_per_pixel args = Some m"
    and "14 \<le> length (scaling_points_y fg)"
    and "ar_coeffs_cb fg \<noteq> []" and "ar_coeffs_cr fg \<noteq> []"
    and "\<And>j. 0 \<le> j \<Longrightarrow> j < 14 \<Longrightarrow> scaling_point args m 14 j \<noteq> None"
  shows "generate_photon_noise args fg \<noteq> None"
proof -
  let ?fg0 = "fg\<lparr>num_y_points := 14\<rparr>"
  have "photon_noise_loop args m 0 ?fg0 \<noteq> None"
    using assms(2,5) by (intro photon_noise_loop_total) simp_all
  then obtain fg1 where loop: "photon_noise_loop args m 0 ?fg0 = Some fg1" by auto
  from photon_noise_loop_frame[OF loop]
  have fg1: "fg1 = fg\<lparr>num_y_points := 14, scaling_points_y := scaling_points_y fg1\<rparr>" by simp
  have cb1: "ar_coeffs_cb fg1 = ar_coeffs_cb fg" and cr1: "ar_coeffs_cr fg1 = ar_coeffs_cr fg"
    by (subst fg1, simp)+
  show ?thesis
    using assms(1,3,4) loop by (simp add: generate_photon_noise_def array_store_def cb1 cr1)
qed

subsection \<open>One iteration of the loop\<close>

lemma roundf_round: "- 1 / 2 < v \<Longrightarrow> roundf v = of_int (round v)"
proof -
  assume v: "- 1 / 2 < v"
  show ?thesis
  proof (cases "0 \<le> v")
    case True
    then show ?thesis by (simp add: roundf_def round_def)
  next
    case False
    then have "\<lfloor>- v + 1 / 2\<rfloor> = 0" "\<lfloor>v + 1 / 2\<rfloor> = 0" using v by (simp_all add: floor_eq_iff)
    with False show ?thesis by (simp add: roundf_def round_def)
  qed
qed

lemma round_nonneg: "- 1 / 2 < (v::real) \<Longrightarrow> 0 \<le> round v"
  by (simp add: round_def)

lemma int_of_float_of_int:
  "INT_MIN \<le> k \<Longrightarrow> k \<le> INT_MAX \<Longrightarrow> int_of_float (of_int k) = Some k"
  by (simp add: int_of_float_def)

lemma minf_of_int: "minf (of_int a) (of_int b) = of_int (min a b)"
  by (simp add: minf_def min_def)

lemma quantize_noise:
  assumes "- 1 / 2 < v"
  shows "int_of_float (minf 255 (roundf v)) = Some (min 255 (round v))"
    and "0 \<le> min 255 (round v)"
proof -
  have r: "0 \<le> round v" using assms by (rule round_nonneg)
  have "minf 255 (roundf v) = of_int (min 255 (round v))"
    using minf_of_int[of 255 "round v"] by (simp add: roundf_round[OF assms])
  moreover have "INT_MIN \<le> min 255 (round v)" "min 255 (round v) \<le> INT_MAX"
    using r by (simp_all add: INT_MIN_def INT_MAX_def)
  ultimately show "int_of_float (minf 255 (roundf v)) = Some (min 255 (round v))"
    by (simp add: int_of_float_of_int)
  show "0 \<le> min 255 (round v)" using r by simp
qed

lemma noise_in_electrons_Some:
  assumes "0 \<le> e"
  shows "\<exists>noise. noise_in_electrons e = Some noise \<and> 3 / 2 \<le> noise \<and> e / 200 \<le> noise
           \<and> noise = sqrt ((3 / 2)\<^sup>2 + e + (e / 200)\<^sup>2)"
proof -
  let ?a = "(3 / 2)\<^sup>2 + e + (e / 200)\<^sup>2"
  have arg: "kInputReferredReadNoise * kInputReferredReadNoise + e +
        (kPhotoResponseNonUniformity * kPhotoResponseNonUniformity * e * e) = ?a"
    by (simp add: kInputReferredReadNoise_def kPhotoResponseNonUniformity_def power2_eq_square)
  have pos: "0 \<le> ?a" using assms by (intro add_nonneg_nonneg) simp_all
  have 1: "3 / 2 \<le> sqrt ?a" using assms by (intro real_le_rsqrt) simp
  have 2: "e / 200 \<le> sqrt ?a" using assms by (intro real_le_rsqrt) simp
  show ?thesis
    unfolding noise_in_electrons_def arg using pos 1 2 by (simp add: sqrtf_def)
qed

lemma sample_noise_Some:
  assumes m: "0 < m" and x: "sample_x n i = Some x"
    and l: "to_linear (transfer_function args) x = Some l" "0 \<le> l"
  shows "\<exists>nz. sample_noise args m n i = Some (x, l, nz) \<and> 0 < nz \<and> l / 200 \<le> nz
           \<and> nz = sqrt ((3 / 2)\<^sup>2 + m * l + (m * l / 200)\<^sup>2) / m"
proof -
  have e: "0 \<le> m * l" using m l by simp
  from noise_in_electrons_Some[OF e] obtain noise where
    noise: "noise_in_electrons (m * l) = Some noise" "3 / 2 \<le> noise" "m * l / 200 \<le> noise"
      "noise = sqrt ((3 / 2)\<^sup>2 + m * l + (m * l / 200)\<^sup>2)"
    by blast
  have "0 < noise / m" using noise(2) m by simp
  moreover have "l / 200 \<le> noise / m" using noise(3) m by (simp add: field_simps)
  ultimately show ?thesis using x l noise m by (simp add: sample_noise_def fdiv_def)
qed

lemma linear_range:
  assumes "0 \<le> l" "l \<le> 1001 / 1000" "0 < nz" "l / 200 \<le> nz"
  shows "0 \<le> linear_range_start l nz"
    and "linear_range_start l nz < linear_range_end l nz"
    and "linear_range_end l nz \<le> 1"
    and "(linear_range_start l nz = 0 \<and> linear_range_end l nz = 1) \<or>
         nz \<le> linear_range_end l nz - linear_range_start l nz"
  using assms by (auto simp: linear_range_start_def linear_range_end_def maxf_def minf_def)

lemma tf_slope_Some:
  assumes F: "\<And>a b. 0 \<le> a \<Longrightarrow> a \<le> b \<Longrightarrow> b \<le> 1 \<Longrightarrow>
      \<exists>fa fb. from_linear tf a = Some fa \<and> from_linear tf b = Some fb \<and>
        fa - 1 / 10000 \<le> fb \<and> (a = 0 \<and> b = 1 \<longrightarrow> fa \<le> fb)"
    and r: "0 \<le> s" "s < e" "e \<le> 1" "0 < nz" "(s = 0 \<and> e = 1) \<or> nz \<le> e - s"
  shows "\<exists>slope. tf_slope tf s e = Some slope \<and> - 1 / 10000 \<le> nz * slope"
proof -
  from F[of s e] r obtain fa fb where
    f: "from_linear tf s = Some fa" "from_linear tf e = Some fb"
      "fa - 1 / 10000 \<le> fb" "s = 0 \<and> e = 1 \<longrightarrow> fa \<le> fb"
    by (metis less_imp_le)
  let ?slope = "(fb - fa) / (e - s)"
  have d: "0 < e - s" using r by simp
  have slope: "tf_slope tf s e = Some ?slope"
    using f d by (simp add: tf_slope_def fdiv_def)
  have "- 1 / 10000 \<le> nz * ?slope"
  proof (cases "fa \<le> fb")
    case True
    then have "0 \<le> nz * ?slope" using d r(4) by simp
    then show ?thesis by simp
  next
    case False
    with f(4) r(5) have nz: "nz \<le> e - s" by auto
    have neg: "fb - fa \<le> 0" using False by simp
    have "nz * ?slope = (nz / (e - s)) * (fb - fa)" by simp
    also have "\<dots> \<ge> 1 * (fb - fa)"
      using nz d neg r(4) by (intro mult_right_mono_neg) simp_all
    finally show ?thesis using f(3) by simp
  qed
  with slope show ?thesis by blast
qed

lemma encoded_noise_Some:
  assumes F: "\<And>a b. 0 \<le> a \<Longrightarrow> a \<le> b \<Longrightarrow> b \<le> 1 \<Longrightarrow>
      \<exists>fa fb. from_linear (transfer_function args) a = Some fa \<and>
        from_linear (transfer_function args) b = Some fb \<and>
        fa - 1 / 10000 \<le> fb \<and> (a = 0 \<and> b = 1 \<longrightarrow> fa \<le> fb)"
    and m: "0 < m" and x: "sample_x n i = Some x"
    and l: "to_linear (transfer_function args) x = Some l" "0 \<le> l" "l \<le> 1001 / 1000"
  shows "\<exists>en. encoded_noise args m n i = Some (x, en) \<and> - 1 / 10000 \<le> en"
proof -
  from sample_noise_Some[OF m x l(1,2)] obtain nz where
    nz: "sample_noise args m n i = Some (x, l, nz)" "0 < nz" "l / 200 \<le> nz" by blast
  note r = linear_range[OF l(2,3) nz(2,3)]
  from tf_slope_Some[of "transfer_function args", OF F r(1,2,3) nz(2) r(4)]
  obtain slope where
    "tf_slope (transfer_function args) (linear_range_start l nz) (linear_range_end l nz) = Some slope"
    "- 1 / 10000 \<le> nz * slope" by blast
  with nz(1) show ?thesis by (simp add: encoded_noise_def)
qed

lemma scaling_point_of_encoded_noise:
  assumes "encoded_noise args m n i = Some (x, en)" "- 1 / 10000 \<le> en" "0 \<le> x" "x \<le> 1"
  shows "scaling_point args m n i = Some (round (255 * x), min 255 (round (255 * 7.88 * en)))"
proof -
  have v: "- 1 / 2 < 255 * 7.88 * en" using assms(2) by simp
  have x: "- 1 / 2 < 255 * x" using assms(3) by simp
  have "0 \<le> round (255 * x)" using x by (rule round_nonneg)
  moreover have "round (255 * x) \<le> 255"
  proof -
    have "round (255 * x) \<le> round (255 :: real)" using assms(4) by (intro round_mono) simp
    then show ?thesis by simp
  qed
  ultimately have "int_of_float (roundf (255 * x)) = Some (round (255 * x))"
    by (simp add: roundf_round[OF x] int_of_float_of_int INT_MIN_def INT_MAX_def)
  with assms(1) quantize_noise(1)[OF v] show ?thesis by (simp add: scaling_point_def)
qed

lemma sample_x_14: "0 \<le> i \<Longrightarrow> i < 14 \<Longrightarrow> sample_x 14 i = Some (of_int i / 13)"
  by (simp add: sample_x_def fdiv_def float_of_int_small)

lemma max_electrons_per_pixel_Some:
  assumes "0 < width args" "0 < height args" "0 < iso_setting args"
    and "width args * height args \<le> INT_MAX"
    and "0 < mid_tone (transfer_function args)"
  shows "\<exists>m. max_electrons_per_pixel args = Some m \<and> 0 < m \<and>
     m = 0.20 * 11260 * (10 / float_of_int (iso_setting args)) *
           (36000 * 24000 / float_of_int (width args * height args)) /
           mid_tone (transfer_function args)"
proof -
  have p: "0 < width args * height args" using assms(1,2) by simp
  then have mul: "int_mul (width args) (height args) = width args * height args"
    using assms(4) by (simp add: int_mul_def INT_MAX_def)
  have fp: "0 < float_of_int (width args * height args)" using p by (rule float_of_int_pos)
  have fi: "0 < float_of_int (iso_setting args)" using assms(3) by (rule float_of_int_pos)
  show ?thesis
    using mul fp fi assms(5)
    by (simp add: max_electrons_per_pixel_def mid_tone_electrons_per_pixel_def
        mid_tone_exposure_def pixel_area_um2_def fdiv_def
        kEffectiveQuantumEfficiency_def kPhotonsPerLxSPerUm2_def)
qed

subsection \<open>Numeric bounds\<close>

lemma exp_ge_taylor_even:
  fixes x :: real
  assumes "even n"
  shows "(\<Sum>m<n. x ^ m / fact m) \<le> exp x"
proof -
  from Maclaurin_exp_le[of x n] obtain t where
    t: "exp x = (\<Sum>m<n. x ^ m / fact m) + (exp t / fact n) * x ^ n" by blast
  have "0 \<le> x ^ n" using assms by (rule zero_le_even_power)
  then have "0 \<le> (exp t / fact n) * x ^ n" by simp
  with t show ?thesis by linarith
qed

lemma exp_ge_taylor_pos:
  fixes x :: real
  assumes "0 \<le> x"
  shows "(\<Sum>m<n. x ^ m / fact m) \<le> exp x"
proof -
  from Maclaurin_exp_le[of x n] obtain t where
    t: "exp x = (\<Sum>m<n. x ^ m / fact m) + (exp t / fact n) * x ^ n" by blast
  have "0 \<le> (exp t / fact n) * x ^ n" using assms by simp
  with t show ?thesis by linarith
qed

lemma exp_neg_3355: "exp (- (3355 / 10000)) \<le> (71533108 / 100000000 :: real)"
proof -
  have "(100000000 / 71533108 :: real) \<le> (\<Sum>m<4. (3355 / 10000) ^ m / fact m)"
    by (simp add: eval_nat_numeral lessThan_Suc)
  also have "\<dots> \<le> exp (3355 / 10000)" by (rule exp_ge_taylor_pos) simp
  finally have "1 / exp (3355 / 10000 :: real) \<le> 1 / (100000000 / 71533108)"
    by (intro divide_left_mono) simp_all
  then show ?thesis by (simp add: exp_minus inverse_eq_divide)
qed

lemma exp_24609: "exp (24609 / 10000) \<le> (1172 / 100 :: real)"
proof -
  have "(100 / 1172 :: real) \<le> (\<Sum>m<16. (- (24609 / 10000)) ^ m / fact m)"
    by (simp add: eval_nat_numeral lessThan_Suc)
  also have "\<dots> \<le> exp (- (24609 / 10000))" by (rule exp_ge_taylor_even) simp
  finally have "1 / exp (- (24609 / 10000) :: real) \<le> 1 / (100 / 1172)"
    by (intro divide_left_mono) simp_all
  then show ?thesis by (simp add: exp_minus inverse_eq_divide)
qed

subsection \<open>The transfer functions on the unit interval\<close>

lemma powf_Some: "0 \<le> x \<Longrightarrow> powf x y = Some (x powr y)"
  by (simp add: powf_def)

lemma powr_unit: "0 \<le> x \<Longrightarrow> x \<le> 1 \<Longrightarrow> 0 \<le> y \<Longrightarrow> 0 \<le> x powr y \<and> x powr y \<le> (1::real)"
  by (simp add: powr_le1)

lemma srgb_break: "(904 / 10000 :: real) \<le> (31308 / 10000000) powr (5 / 12)"
proof -
  let ?u = "904 / 10000 :: real" and ?v = "31308 / 10000000 :: real"
  have "?u ^ 12 \<le> ?v ^ 5" by (simp add: power_divide)
  then have "(?u ^ 12) powr (1 / 12) \<le> (?v ^ 5) powr (1 / 12)"
    by (intro powr_mono2) simp_all
  moreover have "(?u ^ 12) powr (1 / 12) = ?u"
    by (simp only: powr_realpow[symmetric, of ?u 12] powr_powr) simp
  moreover have "(?v ^ 5) powr (1 / 12) = ?v powr (5 / 12)"
    by (simp only: powr_realpow[symmetric, of ?v 5] powr_powr) simp
  ultimately show ?thesis by simp
qed

text \<open>\<open>to_linear\<close> on the unit interval.\<close>

lemma gamma22_to_linear_unit:
  "0 \<le> x \<Longrightarrow> x \<le> 1 \<Longrightarrow> \<exists>l. gamma22_to_linear x = Some l \<and> 0 \<le> l \<and> l \<le> 1001 / 1000"
  using powr_unit[of x "2.2"] by (simp add: gamma22_to_linear_def powf_Some)

lemma gamma28_to_linear_unit:
  "0 \<le> x \<Longrightarrow> x \<le> 1 \<Longrightarrow> \<exists>l. gamma28_to_linear x = Some l \<and> 0 \<le> l \<and> l \<le> 1001 / 1000"
  using powr_unit[of x "2.8"] by (simp add: gamma28_to_linear_def powf_Some)

lemma srgb_to_linear_unit:
  assumes "0 \<le> x" "x \<le> 1"
  shows "\<exists>l. srgb_to_linear x = Some l \<and> 0 \<le> l \<and> l \<le> 1001 / 1000"
proof (cases "x \<le> 0.04045")
  case True
  then have "srgb_to_linear x = Some (x / 12.92)" by (simp add: srgb_to_linear_def)
  moreover have "0 \<le> x / 12.92" "x / 12.92 \<le> 1001 / 1000" using assms by simp_all
  ultimately show ?thesis by blast
next
  case False
  have "0 \<le> (x + 0.055) / 1.055" "(x + 0.055) / 1.055 \<le> 1" using assms by simp_all
  from powr_unit[OF this, of "2.4"] this(1) False show ?thesis
    by (simp add: srgb_to_linear_def powf_Some)
qed

lemma pq_to_linear_unit:
  assumes "0 \<le> x" "x \<le> 1"
  shows "\<exists>l. pq_to_linear x = Some l \<and> 0 \<le> l \<and> l \<le> 1001 / 1000"
proof -
  let ?p = "x powr (1 / kPqM2)"
  have p: "0 \<le> ?p" "?p \<le> 1" using powr_unit[OF assms, of "1 / kPqM2"] by (simp_all add: kPqM2_def)
  let ?d = "kPqC2 - kPqC3 * ?p"
  let ?n = "maxf 0 (?p - kPqC1)"
  have d: "0 < ?d" using p by (simp add: kPqC2_def kPqC3_def)
  have n: "0 \<le> ?n" "?n \<le> ?d" using p by (simp_all add: maxf_def kPqC1_def kPqC2_def kPqC3_def)
  have q: "0 \<le> ?n / ?d" "?n / ?d \<le> 1" using n d by simp_all
  have r: "0 \<le> (?n / ?d) powr (1 / kPqM1) \<and> (?n / ?d) powr (1 / kPqM1) \<le> 1"
    using q by (intro powr_unit) (simp_all add: kPqM1_def)
  have "pq_to_linear x = Some ((?n / ?d) powr (1 / kPqM1))"
    using assms d q by (simp add: pq_to_linear_def powf_Some fdiv_def)
  with r show ?thesis by simp
qed

lemma hlg_to_linear_unit:
  assumes "0 \<le> x" "x \<le> 1"
  shows "\<exists>l. hlg_to_linear x = Some l \<and> 0 \<le> l \<and> l \<le> 1001 / 1000"
proof (cases "x \<le> 0.5")
  case True
  have "0 \<le> x * x / 3" "x * x / 3 \<le> 1"
    using assms mult_le_one[of x x] by simp_all
  from powr_unit[OF this, of "1.2"] this(1) True show ?thesis
    by (simp add: hlg_to_linear_def powf_Some)
next
  case False
  let ?l = "(exp ((x - kHlgC) / kHlgA) + kHlgB) / 12"
  have "(x - kHlgC) / kHlgA \<le> 24609 / 10000"
    using assms by (simp add: kHlgC_def kHlgA_def field_simps)
  then have "exp ((x - kHlgC) / kHlgA) \<le> exp (24609 / 10000)" by simp
  also have "\<dots> \<le> 1172 / 100" by (rule exp_24609)
  finally have hi: "?l \<le> 10004 / 10000" by (simp add: kHlgB_def)
  have lo: "0 < ?l" by (simp add: kHlgB_def add_pos_pos)
  have "?l powr 1.2 \<le> (10004 / 10000) powr 1.2" using lo hi by (intro powr_mono2) simp_all
  also have "\<dots> \<le> (10004 / 10000) powr 2" by (intro powr_mono) simp_all
  also have "\<dots> \<le> 1001 / 1000" by (simp add: power2_eq_square)
  finally have "?l powr 1.2 \<le> 1001 / 1000" .
  with lo False show ?thesis by (simp add: hlg_to_linear_def powf_Some Let_def)
qed

text \<open>
  \<open>from_linear\<close> on the unit interval: defined, and increasing up to the steps of the
  two piecewise curves at their break points, which are below \<open>1 / 10000\<close>.
\<close>

lemma from_linear_almost_monoI:
  fixes f :: "real \<Rightarrow> real option"
  assumes "f a = Some fa" "f b = Some fb" "fa - 1 / 10000 \<le> fb" "a = 0 \<and> b = 1 \<longrightarrow> fa \<le> fb"
  shows "\<exists>fa fb. f a = Some fa \<and> f b = Some fb \<and>
           fa - 1 / 10000 \<le> fb \<and> (a = 0 \<and> b = 1 \<longrightarrow> fa \<le> fb)"
  using assms by blast

lemma from_linear_monoI:
  fixes f :: "real \<Rightarrow> real option"
  assumes "f a = Some fa" "f b = Some fb" "fa \<le> fb"
  shows "\<exists>fa fb. f a = Some fa \<and> f b = Some fb \<and>
           fa - 1 / 10000 \<le> fb \<and> (a = 0 \<and> b = 1 \<longrightarrow> fa \<le> fb)"
  using assms by (intro from_linear_almost_monoI[of f a fa b fb]) simp_all

lemma gamma22_from_linear_mono:
  assumes "0 \<le> a" "a \<le> b"
  shows "\<exists>fa fb. gamma22_from_linear a = Some fa \<and> gamma22_from_linear b = Some fb \<and>
           fa - 1 / 10000 \<le> fb \<and> (a = 0 \<and> b = 1 \<longrightarrow> fa \<le> fb)"
proof -
  have "a powr (1 / 2.2) \<le> b powr (1 / 2.2)" using assms by (intro powr_mono2) simp_all
  moreover have "0 \<le> b" using assms by linarith
  ultimately show ?thesis using assms(1)
    by (intro from_linear_monoI) (simp_all add: gamma22_from_linear_def powf_Some)
qed

lemma gamma28_from_linear_mono:
  assumes "0 \<le> a" "a \<le> b"
  shows "\<exists>fa fb. gamma28_from_linear a = Some fa \<and> gamma28_from_linear b = Some fb \<and>
           fa - 1 / 10000 \<le> fb \<and> (a = 0 \<and> b = 1 \<longrightarrow> fa \<le> fb)"
proof -
  have "a powr (1 / 2.8) \<le> b powr (1 / 2.8)" using assms by (intro powr_mono2) simp_all
  moreover have "0 \<le> b" using assms by linarith
  ultimately show ?thesis using assms(1)
    by (intro from_linear_monoI) (simp_all add: gamma28_from_linear_def powf_Some)
qed

lemma pq_from_linear_mono:
  assumes "0 \<le> a" "a \<le> b"
  shows "\<exists>fa fb. pq_from_linear a = Some fa \<and> pq_from_linear b = Some fb \<and>
           fa - 1 / 10000 \<le> fb \<and> (a = 0 \<and> b = 1 \<longrightarrow> fa \<le> fb)"
proof -
  let ?u = "a powr kPqM1" and ?v = "b powr kPqM1"
  let ?g = "\<lambda>u. (kPqC1 + kPqC2 * u) / (1 + kPqC3 * u)"
  have uv: "0 \<le> ?u" "?u \<le> ?v" using assms by (simp_all add: powr_mono2 kPqM1_def)
  then have v: "0 \<le> ?v" by simp
  have du: "0 < 1 + kPqC3 * ?u" and dv: "0 < 1 + kPqC3 * ?v"
    using uv(1) v by (simp_all add: kPqC3_def add_pos_nonneg)
  have gu: "0 \<le> ?g ?u" using uv(1) du by (simp add: kPqC1_def kPqC2_def kPqC3_def)
  have "(kPqC1 + kPqC2 * ?v) * (1 + kPqC3 * ?u) - (kPqC1 + kPqC2 * ?u) * (1 + kPqC3 * ?v)
        = (kPqC2 - kPqC1 * kPqC3) * (?v - ?u)"
    by (simp add: algebra_simps)
  moreover have "0 \<le> (kPqC2 - kPqC1 * kPqC3) * (?v - ?u)"
    using uv(2) by (intro mult_nonneg_nonneg) (simp_all add: kPqC1_def kPqC2_def kPqC3_def)
  ultimately have
    "(kPqC1 + kPqC2 * ?u) * (1 + kPqC3 * ?v) \<le> (kPqC1 + kPqC2 * ?v) * (1 + kPqC3 * ?u)"
    by linarith
  then have g: "?g ?u \<le> ?g ?v" using du dv by (simp add: frac_le_eq divide_le_0_iff not_le mult.commute)
  then have gv: "0 \<le> ?g ?v" using gu by simp
  have b0: "0 \<le> b" using assms by linarith
  have 1: "?g ?u powr kPqM2 \<le> ?g ?v powr kPqM2"
    using gu g by (intro powr_mono2) (simp_all add: kPqM2_def)
  have 2: "pq_from_linear a = Some (?g ?u powr kPqM2)"
    using assms(1) du gu by (simp add: pq_from_linear_def powf_Some fdiv_def)
  have 3: "pq_from_linear b = Some (?g ?v powr kPqM2)"
    using b0 dv gv by (simp add: pq_from_linear_def powf_Some fdiv_def)
  from 2 3 1 show ?thesis by (rule from_linear_monoI)
qed

lemma srgb_from_linear_almost_mono:
  assumes "0 \<le> a" "a \<le> b" "b \<le> 1"
  shows "\<exists>fa fb. srgb_from_linear a = Some fa \<and> srgb_from_linear b = Some fb \<and>
           fa - 1 / 10000 \<le> fb \<and> (a = 0 \<and> b = 1 \<longrightarrow> fa \<le> fb)"
proof -
  let ?t = "0.0031308 :: real"
  let ?hi = "\<lambda>l::real. 1.055 * l powr (1 / 2.4) - 0.055"
  have hi: "srgb_from_linear l = Some (?hi l)" if "?t < l" for l
    using that by (simp add: srgb_from_linear_def powf_Some)
  have lo: "srgb_from_linear l = Some (12.92 * l)" if "l \<le> ?t" for l
    using that by (simp add: srgb_from_linear_def)
  consider "b \<le> ?t" | "a \<le> ?t" "?t < b" | "?t < a" using assms(2) by linarith
  then show ?thesis
  proof cases
    case 1
    then have a: "a \<le> ?t" using assms(2) by linarith
    have "12.92 * a \<le> 12.92 * b" using assms(2) by simp
    with lo[OF a] lo[OF 1] show ?thesis by (rule from_linear_monoI)
  next
    case 2
    have "?t powr (5 / 12) \<le> b powr (5 / 12)" using 2(2) by (intro powr_mono2) simp_all
    with srgb_break have "904 / 10000 \<le> b powr (5 / 12)" by simp
    then have fb: "12.92 * ?t - 1 / 10000 \<le> ?hi b" by simp
    have "12.92 * a \<le> 12.92 * ?t" using 2(1) by simp
    with fb have 3: "12.92 * a - 1 / 10000 \<le> ?hi b" by linarith
    have 4: "a = 0 \<and> b = 1 \<longrightarrow> 12.92 * a \<le> ?hi b" by simp
    from lo[OF 2(1)] hi[OF 2(2)] 3 4 show ?thesis by (rule from_linear_almost_monoI)
  next
    case 3
    then have b: "?t < b" using assms(2) by linarith
    have "a powr (1 / 2.4) \<le> b powr (1 / 2.4)" using assms by (intro powr_mono2) simp_all
    then have "?hi a \<le> ?hi b" by simp
    with hi[OF 3] hi[OF b] show ?thesis by (rule from_linear_monoI)
  qed
qed

lemma hlg_from_linear_almost_mono:
  assumes "0 \<le> a" "a \<le> b" "b \<le> 1"
  shows "\<exists>fa fb. hlg_from_linear a = Some fa \<and> hlg_from_linear b = Some fb \<and>
           fa - 1 / 10000 \<le> fb \<and> (a = 0 \<and> b = 1 \<longrightarrow> fa \<le> fb)"
proof -
  let ?u = "a powr (1 / 1.2)" and ?v = "b powr (1 / 1.2)"
  let ?hi = "\<lambda>l::real. kHlgA * ln (12 * l - kHlgB) + kHlgC"
  have uv: "0 \<le> ?u" "?u \<le> ?v" using assms by (simp_all add: powr_mono2)
  have lo: "hlg_from_linear l = Some (sqrt (3 * l powr (1 / 1.2)))"
    if "0 \<le> l" "l powr (1 / 1.2) \<le> 1 / 12" for l
    using that by (simp add: hlg_from_linear_def powf_Some sqrtf_def)
  have hi: "hlg_from_linear l = Some (?hi (l powr (1 / 1.2)))"
    if "0 \<le> l" "1 / 12 < l powr (1 / 1.2)" for l
    using that by (simp add: hlg_from_linear_def powf_Some logf_def kHlgB_def)
  have b0: "0 \<le> b" using assms by linarith
  consider "?v \<le> 1 / 12" | "?u \<le> 1 / 12" "1 / 12 < ?v" | "1 / 12 < ?u" using uv(2) by linarith
  then show ?thesis
  proof cases
    case 1
    then have u: "?u \<le> 1 / 12" using uv(2) by linarith
    have "sqrt (3 * ?u) \<le> sqrt (3 * ?v)" using uv by simp
    with lo[OF assms(1) u] lo[OF b0 1] show ?thesis by (rule from_linear_monoI)
  next
    case 2
    have fa: "sqrt (3 * ?u) \<le> 1 / 2"
    proof -
      have "sqrt (3 * ?u) \<le> sqrt ((1 / 2)\<^sup>2)"
        using 2(1) by (intro real_sqrt_le_mono) (simp add: power2_eq_square)
      then show ?thesis by simp
    qed
    have "- (3355 / 10000) \<le> ln (71533108 / 100000000 :: real)"
      using exp_neg_3355 by (subst ln_ge_iff) simp_all
    also have "\<dots> \<le> ln (12 * ?v - kHlgB)"
      using 2(2) by (subst ln_le_cancel_iff) (simp_all add: kHlgB_def)
    finally have "kHlgA * (- (3355 / 10000)) \<le> kHlgA * ln (12 * ?v - kHlgB)"
      by (intro mult_left_mono) (simp_all add: kHlgA_def)
    then have fb: "1 / 2 - 1 / 10000 \<le> ?hi ?v" by (simp add: kHlgA_def kHlgC_def)
    have 3: "sqrt (3 * ?u) - 1 / 10000 \<le> ?hi ?v" using fa fb by linarith
    have 4: "a = 0 \<and> b = 1 \<longrightarrow> sqrt (3 * ?u) \<le> ?hi ?v"
    proof (intro impI)
      assume "a = 0 \<and> b = 1"
      then have "sqrt (3 * ?u) = 0" "?v = 1" by simp_all
      moreover have "0 \<le> kHlgA * ln (12 - kHlgB)"
        by (intro mult_nonneg_nonneg ln_ge_zero) (simp_all add: kHlgA_def kHlgB_def)
      ultimately show "sqrt (3 * ?u) \<le> ?hi ?v" by (simp add: kHlgC_def)
    qed
    from lo[OF assms(1) 2(1)] hi[OF b0 2(2)] 3 4 show ?thesis by (rule from_linear_almost_monoI)
  next
    case 3
    then have v: "1 / 12 < ?v" using uv(2) by linarith
    have "ln (12 * ?u - kHlgB) \<le> ln (12 * ?v - kHlgB)"
      using 3 uv(2) by (subst ln_le_cancel_iff) (simp_all add: kHlgB_def)
    then have "?hi ?u \<le> ?hi ?v" by (simp add: kHlgA_def)
    with hi[OF assms(1) 3] hi[OF b0 v] show ?thesis by (rule from_linear_monoI)
  qed
qed

subsection \<open>The catalogue; the synthesizer is defined on validated input\<close>

lemma catalog_cases:
  assumes "tf \<in> set transfer_function_catalog"
  obtains "tf = kGamma22TransferFunction" | "tf = kGamma28TransferFunction"
    | "tf = kSRgbTransferFunction" | "tf = kPqTransferFunction" | "tf = kHlgTransferFunction"
  using assms by (auto simp: transfer_function_catalog_def)

lemma catalog_mid_tone:
  assumes "tf \<in> set transfer_function_catalog"
  shows "0 < mid_tone tf"
  using assms
proof (cases rule: catalog_cases)
  case 1 then show ?thesis by (simp add: kGamma22TransferFunction_def)
next
  case 2 then show ?thesis by (simp add: kGamma28TransferFunction_def)
next
  case 3 then show ?thesis by (simp add: kSRgbTransferFunction_def)
next
  case 4 then show ?thesis by (simp add: kPqTransferFunction_def)
next
  case 5 then show ?thesis by (simp add: kHlgTransferFunction_def)
qed

lemma catalog_to_linear:
  assumes "tf \<in> set transfer_function_catalog" "0 \<le> x" "x \<le> 1"
  shows "\<exists>l. to_linear tf x = Some l \<and> 0 \<le> l \<and> l \<le> 1001 / 1000"
  using assms(1)
proof (cases rule: catalog_cases)
  case 1 then show ?thesis
    using gamma22_to_linear_unit[OF assms(2,3)] by (simp add: kGamma22TransferFunction_def)
next
  case 2 then show ?thesis
    using gamma28_to_linear_unit[OF assms(2,3)] by (simp add: kGamma28TransferFunction_def)
next
  case 3 then show ?thesis
    using srgb_to_linear_unit[OF assms(2,3)] by (simp add: kSRgbTransferFunction_def)
next
  case 4 then show ?thesis
    using pq_to_linear_unit[OF assms(2,3)] by (simp add: kPqTransferFunction_def)
next
  case 5 then show ?thesis
    using hlg_to_linear_unit[OF assms(2,3)] by (simp add: kHlgTransferFunction_def)
qed

lemma catalog_from_linear:
  assumes "tf \<in> set transfer_function_catalog" "0 \<le> a" "a \<le> b" "b \<le> 1"
  shows "\<exists>fa fb. from_linear tf a = Some fa \<and> from_linear tf b = Some fb \<and>
           fa - 1 / 10000 \<le> fb \<and> (a = 0 \<and> b = 1 \<longrightarrow> fa \<le> fb)"
  using assms(1)
proof (cases rule: catalog_cases)
  case 1 then show ?thesis
    using gamma22_from_linear_mono[OF assms(2,3)] by (simp add: kGamma22TransferFunction_def)
next
  case 2 then show ?thesis
    using gamma28_from_linear_mono[OF assms(2,3)] by (simp add: kGamma28TransferFunction_def)
next
  case 3 then show ?thesis
    using srgb_from_linear_almost_mono[OF assms(2,3,4)] by (simp add: kSRgbTransferFunction_def)
next
  case 4 then show ?thesis
    using pq_from_linear_mono[OF assms(2,3)] by (simp add: kPqTransferFunction_def)
next
  case 5 then show ?thesis
    using hlg_from_linear_almost_mono[OF assms(2,3,4)] by (simp add: kHlgTransferFunction_def)
qed

lemma encoded_noise_catalog:
  assumes "transfer_function args \<in> set transfer_function_catalog" "0 < m" "0 \<le> i" "i < 14"
  shows "\<exists>en. encoded_noise args m 14 i = Some (real_of_int i / 13, en) \<and> - 1 / 10000 \<le> en"
proof -
  have x: "sample_x 14 i = Some (real_of_int i / 13)" using assms(3,4) by (rule sample_x_14)
  have x01: "0 \<le> (real_of_int i / 13)" "(real_of_int i / 13) \<le> 1" using assms(3,4) by simp_all
  from catalog_to_linear[OF assms(1) x01] obtain l where
    l: "to_linear (transfer_function args) (real_of_int i / 13) = Some l" "0 \<le> l" "l \<le> 1001 / 1000"
    by blast
  show ?thesis
    by (rule encoded_noise_Some[OF catalog_from_linear[OF assms(1)] assms(2) x l])
qed

lemma scaling_point_catalog:
  assumes "transfer_function args \<in> set transfer_function_catalog" "0 < m" "0 \<le> i" "i < 14"
  shows "\<exists>en. encoded_noise args m 14 i = Some (real_of_int i / 13, en) \<and> - 1 / 10000 \<le> en \<and>
           scaling_point args m 14 i =
             Some (round (255 * (real_of_int i / 13)), min 255 (round (255 * 7.88 * en)))"
proof -
  from encoded_noise_catalog[OF assms] obtain en where
    en: "encoded_noise args m 14 i = Some (real_of_int i / 13, en)" "- 1 / 10000 \<le> en" by blast
  have "0 \<le> (real_of_int i / 13)" "(real_of_int i / 13) \<le> 1" using assms(3,4) by simp_all
  from scaling_point_of_encoded_noise[OF en this]
  have "scaling_point args m 14 i =
      Some (round (255 * (real_of_int i / 13)), min 255 (round (255 * 7.88 * en)))" .
  with en show ?thesis by (intro exI[of _ en] conjI)
qed

lemma generate_photon_noise_defined:
  assumes "0 < width args" "0 < height args" "0 < iso_setting args"
    and "width args * height args \<le> INT_MAX"
    and "transfer_function args \<in> set transfer_function_catalog"
    and "14 \<le> length (scaling_points_y fg)" "ar_coeffs_cb fg \<noteq> []" "ar_coeffs_cr fg \<noteq> []"
  shows "generate_photon_noise args fg \<noteq> None"
proof -
  from max_electrons_per_pixel_Some[OF assms(1-4) catalog_mid_tone[OF assms(5)]]
  obtain m where m: "max_electrons_per_pixel args = Some m" "0 < m" by blast
  show ?thesis
  proof (rule generate_photon_noise_total[OF m(1) assms(6-8)])
    fix j :: int assume "0 \<le> j" "j < 14"
    from scaling_point_catalog[OF assms(5) m(2) this]
    show "scaling_point args m 14 j \<noteq> None" by auto
  qed
qed

subsection \<open>The x-coordinates; the invocation of the usage comment\<close>

lemma scaling_point_x:
  assumes "scaling_point args m 14 j = Some p" "0 \<le> j" "j < 14"
  shows "fst p = round (255 * real_of_int j / 13)"
proof -
  from assms(1) obtain x en xi ni where
    e: "encoded_noise args m 14 j = Some (x, en)" and
    xi: "int_of_float (roundf (255 * x)) = Some xi" and p: "p = (xi, ni)"
    by (auto simp: scaling_point_def bind_eq_Some_conv)
  from e have "sample_x 14 j = Some x"
    by (auto simp: encoded_noise_def sample_noise_def bind_eq_Some_conv)
  with sample_x_14[OF assms(2,3)] have x: "x = real_of_int j / 13" by simp
  have "- 1 / 2 < 255 * x" using assms(2) by (simp add: x)
  from roundf_round[OF this] xi have "xi = round (255 * x)"
    by (simp add: int_of_float_def Let_def split: if_splits)
  then show ?thesis by (simp add: p x)
qed

lemma usage_defined: "generate_photon_noise usage_args blank_film_grain \<noteq> None"
  by (rule generate_photon_noise_defined)
    (simp_all add: usage_args_def blank_film_grain_def transfer_function_catalog_def INT_MAX_def)

lemma round_255_13:
  "map (\<lambda>i. round (255 * real i / 13)) [0..<14] =
     [0, 20, 39, 59, 78, 98, 118, 137, 157, 177, 196, 216, 235, 255]"
  by (simp add: upt_rec round_def)

subsection \<open>The rows of a returned descriptor\<close>

lemma srgb_to_linear_unit_interval:
  assumes "0 \<le> x" "x \<le> 1"
  shows "\<exists>l. srgb_to_linear x = Some l \<and> 0 \<le> l \<and> l \<le> 1"
proof (cases "x \<le> 0.04045")
  case True
  then have "srgb_to_linear x = Some (x / 12.92)" by (simp add: srgb_to_linear_def)
  moreover have "0 \<le> x / 12.92" "x / 12.92 \<le> 1" using assms by simp_all
  ultimately show ?thesis by blast
next
  case False
  have b: "0 \<le> (x + 0.055) / 1.055" "(x + 0.055) / 1.055 \<le> 1" using assms by simp_all
  from powr_unit[OF b, of "2.4"] b(1) False show ?thesis
    by (simp add: srgb_to_linear_def powf_Some)
qed

lemma scaling_point_generated:
  assumes g: "generate_photon_noise args fg = Some fg'"
    and pos: "0 < width args" "0 < height args" "0 < iso_setting args"
    and fits: "width args * height args \<le> INT_MAX"
    and tf: "transfer_function args \<in> set transfer_function_catalog"
    and i: "i < 14"
  shows "\<exists>m en. max_electrons_per_pixel args = Some m \<and> 0 < m \<and>
           m = 0.20 * 11260 * (10 / float_of_int (iso_setting args)) *
                 (36000 * 24000 / float_of_int (width args * height args)) /
                 mid_tone (transfer_function args) \<and>
           encoded_noise args m 14 (int i) = Some (real i / 13, en) \<and> - 1 / 10000 \<le> en \<and>
           scaling_points_y fg' ! i = (round (255 * (real i / 13)), min 255 (round (255 * 7.88 * en)))"
proof -
  from generate_photon_noise_Some[OF g] obtain m where
    m: "max_electrons_per_pixel args = Some m" and
    rows: "\<And>j. 0 \<le> j \<Longrightarrow> j < 14 \<Longrightarrow>
             scaling_point args m 14 j = Some (scaling_points_y fg' ! nat j)"
    by blast
  from max_electrons_per_pixel_Some[OF pos fits catalog_mid_tone[OF tf]] m
  have m0: "0 < m" and mf: "m = 0.20 * 11260 * (10 / float_of_int (iso_setting args)) *
                 (36000 * 24000 / float_of_int (width args * height args)) /
                 mid_tone (transfer_function args)"
    by auto
  have i': "0 \<le> int i" "int i < 14" using i by simp_all
  from scaling_point_catalog[OF tf m0 i'] obtain en where
    en: "encoded_noise args m 14 (int i) = Some (real_of_int (int i) / 13, en)"
      "- 1 / 10000 \<le> en"
      "scaling_point args m 14 (int i) =
         Some (round (255 * (real_of_int (int i) / 13)), min 255 (round (255 * 7.88 * en)))"
    by blast
  from rows[OF i'] en(3)
  have "scaling_points_y fg' ! i = (round (255 * (real i / 13)), min 255 (round (255 * 7.88 * en)))"
    by simp
  with m m0 mf en(1,2) show ?thesis by (intro exI[of _ m] exI[of _ en]) simp
qed

subsection \<open>Two conversions beyond 24 bits\<close>

lemma float_of_int_INT_MIN: "float_of_int (- 2147483648) = - 2147483648"
  by (simp add: float_of_int_def float_of_nat_def round_to_even_def compute_floorlog)



subsection \<open>The loop body against the reference pipeline\<close>

lemma maxf_max: "maxf a b = max a b"
  by (simp add: maxf_def max_def)

lemma minf_min: "minf a b = min a b"
  by (simp add: minf_def min_def)

lemma encoded_noise_reference:
  assumes e: "encoded_noise args m 14 (int i) = Some (x, en)" and i: "i < 14"
    and m: "m = 0.20 * 11260 * (10 / iso_value) * (36000 * 24000 / pixels) /
                mid_tone (transfer_function args)"
  shows "reference_encoded_noise (transfer_function args) iso_value pixels i = Some en"
proof -
  let ?tf = "transfer_function args"
  from e obtain l nz slope where
    sn: "sample_noise args m 14 (int i) = Some (x, l, nz)" and
    sl: "tf_slope ?tf (linear_range_start l nz) (linear_range_end l nz) = Some slope" and
    en: "en = nz * slope"
    by (auto simp: encoded_noise_def bind_eq_Some_conv)
  from sn obtain noise where
    x: "sample_x 14 (int i) = Some x" and l: "to_linear ?tf x = Some l" and
    noise: "noise_in_electrons (m * l) = Some noise" and nz: "fdiv noise m = Some nz"
    by (auto simp: sample_noise_def bind_eq_Some_conv)
  have x': "x = real i / 13" using x sample_x_14[of "int i"] i by simp
  have noise': "noise = sqrt ((1.5)\<^sup>2 + m * l + (0.005 * (m * l))\<^sup>2)"
    using noise
    by (simp add: noise_in_electrons_def sqrtf_def kInputReferredReadNoise_def
        kPhotoResponseNonUniformity_def power2_eq_square algebra_simps split: if_splits)
  have nz': "nz = noise / m" using nz by (simp add: fdiv_def split: if_splits)
  let ?lo = "max 0 (l - 2 * nz)" and ?hi = "min 1 (l + 2 * nz)"
  from sl obtain f_hi f_lo where
    f: "from_linear ?tf ?hi = Some f_hi" "from_linear ?tf ?lo = Some f_lo" and
    slope: "slope = (f_hi - f_lo) / (?hi - ?lo)"
    by (auto simp: tf_slope_def fdiv_def bind_eq_Some_conv linear_range_start_def
        linear_range_end_def maxf_max minf_min split: if_splits)
  show ?thesis
    unfolding reference_encoded_noise_def Let_def m[symmetric] x'[symmetric]
    by (simp only: l f bind.bind_lunit noise'[symmetric] nz'[symmetric] slope en)
qed

lemma sqrt_9_4: "sqrt (9 / 4) = 3 / 2"
  by (rule real_sqrt_unique) (simp_all add: power2_eq_square)

lemma reference_at_iso_10000000:
  "reference_encoded_noise kSRgbTransferFunction 10000000 (3840 * 2160) 0 =
     Some (648 / 563)"
  by (simp add: reference_encoded_noise_def Let_def kSRgbTransferFunction_def
      srgb_to_linear_def srgb_from_linear_def powf_def sqrt_9_4)

subsection \<open>The curves as inverse pairs\<close>

lemma powr_inverse_exponent:
  fixes x :: real
  assumes "0 \<le> x" "0 < p"
  shows "(x powr p) powr (1 / p) = x" "(x powr (1 / p)) powr p = x"
  using assms by (simp_all add: powr_powr)

text \<open>The two gamma curves: increasing, and inverse to each other exactly.\<close>

lemma gamma22_exact:
  assumes "0 \<le> a" "a \<le> b"
  shows "gamma22_to_linear a = Some (a powr 2.2)" "gamma22_from_linear a = Some (a powr (1 / 2.2))"
    "a powr 2.2 \<le> b powr 2.2" "a powr (1 / 2.2) \<le> b powr (1 / 2.2)"
    "gamma22_from_linear (a powr 2.2) = Some a" "gamma22_to_linear (a powr (1 / 2.2)) = Some a"
proof -
  show "gamma22_to_linear a = Some (a powr 2.2)"
    "gamma22_from_linear a = Some (a powr (1 / 2.2))"
    using assms(1) by (simp_all add: gamma22_to_linear_def gamma22_from_linear_def powf_Some)
  show "a powr 2.2 \<le> b powr 2.2" "a powr (1 / 2.2) \<le> b powr (1 / 2.2)"
    using assms by (simp_all add: powr_mono2)
  show "gamma22_from_linear (a powr 2.2) = Some a"
    using powr_inverse_exponent(1)[OF assms(1), of "2.2"]
    by (simp add: gamma22_from_linear_def powf_Some)
  show "gamma22_to_linear (a powr (1 / 2.2)) = Some a"
    using powr_inverse_exponent(2)[OF assms(1), of "2.2"]
    by (simp add: gamma22_to_linear_def powf_Some)
qed

lemma gamma28_exact:
  assumes "0 \<le> a" "a \<le> b"
  shows "gamma28_to_linear a = Some (a powr 2.8)" "gamma28_from_linear a = Some (a powr (1 / 2.8))"
    "a powr 2.8 \<le> b powr 2.8" "a powr (1 / 2.8) \<le> b powr (1 / 2.8)"
    "gamma28_from_linear (a powr 2.8) = Some a" "gamma28_to_linear (a powr (1 / 2.8)) = Some a"
proof -
  show "gamma28_to_linear a = Some (a powr 2.8)"
    "gamma28_from_linear a = Some (a powr (1 / 2.8))"
    using assms(1) by (simp_all add: gamma28_to_linear_def gamma28_from_linear_def powf_Some)
  show "a powr 2.8 \<le> b powr 2.8" "a powr (1 / 2.8) \<le> b powr (1 / 2.8)"
    using assms by (simp_all add: powr_mono2)
  show "gamma28_from_linear (a powr 2.8) = Some a"
    using powr_inverse_exponent(1)[OF assms(1), of "2.8"]
    by (simp add: gamma28_from_linear_def powf_Some)
  show "gamma28_to_linear (a powr (1 / 2.8)) = Some a"
    using powr_inverse_exponent(2)[OF assms(1), of "2.8"]
    by (simp add: gamma28_to_linear_def powf_Some)
qed

lemma pq_constants:
  "kPqC1 = 107 / 128" "kPqC2 = 2413 / 128" "kPqC3 = 2392 / 128" "0 < kPqM1" "0 < kPqM2"
  "78 \<le> kPqM2"
  by (simp_all add: kPqC1_def kPqC2_def kPqC3_def kPqM1_def kPqM2_def)

lemma pq_p_unit: "0 \<le> x \<Longrightarrow> x \<le> 1 \<Longrightarrow> 0 \<le> pq_p x \<and> pq_p x \<le> 1"
  unfolding pq_p_def using pq_constants(5) by (intro powr_unit) simp_all

lemma pq_p_mono: "0 \<le> a \<Longrightarrow> a \<le> b \<Longrightarrow> pq_p a \<le> pq_p b"
  unfolding pq_p_def using pq_constants(5) by (intro powr_mono2) simp_all

lemma pq_q_unit:
  assumes "0 \<le> p" "p \<le> 1"
  shows "0 < kPqC2 - kPqC3 * p" "0 \<le> pq_q p" "pq_q p \<le> 1"
proof -
  show d: "0 < kPqC2 - kPqC3 * p" using assms by (simp add: pq_constants)
  have n: "0 \<le> maxf 0 (p - kPqC1)" "maxf 0 (p - kPqC1) \<le> kPqC2 - kPqC3 * p"
    using assms by (simp_all add: maxf_def pq_constants)
  show "0 \<le> pq_q p" "pq_q p \<le> 1" using n d by (simp_all add: pq_q_def)
qed

lemma pq_q_mono:
  assumes "0 \<le> p" "p \<le> p'" "p' \<le> 1"
  shows "pq_q p \<le> pq_q p'"
proof -
  have "0 \<le> p'" using assms by linarith
  from pq_q_unit(1)[OF this assms(3)] have d': "0 < kPqC2 - kPqC3 * p'" .
  have "0 \<le> maxf 0 (p' - kPqC1)" "maxf 0 (p - kPqC1) \<le> maxf 0 (p' - kPqC1)"
    "kPqC2 - kPqC3 * p' \<le> kPqC2 - kPqC3 * p"
    using assms by (simp_all add: maxf_def pq_constants)
  from this(1,2) d' this(3) show ?thesis unfolding pq_q_def by (rule frac_le)
qed

lemma pq_to_linear_eq:
  assumes "0 \<le> x" "x \<le> 1"
  shows "pq_to_linear x = Some (pq_q (pq_p x) powr (1 / kPqM1))"
proof -
  from pq_p_unit[OF assms] have p: "0 \<le> pq_p x" "pq_p x \<le> 1" by simp_all
  from pq_q_unit[OF p] show ?thesis
    using assms(1)
    by (simp add: pq_to_linear_def powf_Some fdiv_def pq_p_def[symmetric] pq_q_def[symmetric])
qed

lemma pq_g_unit:
  assumes "0 \<le> u" "u \<le> 1"
  shows "0 < 1 + kPqC3 * u" "kPqC1 \<le> pq_g u" "pq_g u \<le> 1"
proof -
  show d: "0 < 1 + kPqC3 * u" using assms by (simp add: pq_constants add_pos_nonneg)
  show "kPqC1 \<le> pq_g u" using assms d by (simp add: pq_g_def pq_constants field_simps)
  show "pq_g u \<le> 1" using assms d by (simp add: pq_g_def pq_constants field_simps)
qed

lemma pq_from_linear_eq:
  assumes "0 \<le> y" "y \<le> 1"
  shows "pq_from_linear y = Some (pq_g (y powr kPqM1) powr kPqM2)"
proof -
  have u: "0 \<le> y powr kPqM1" "y powr kPqM1 \<le> 1"
    using powr_unit[OF assms, of kPqM1] pq_constants(4) by simp_all
  from pq_g_unit[OF u] have "0 < 1 + kPqC3 * y powr kPqM1" "0 \<le> pq_g (y powr kPqM1)"
    by (simp_all add: pq_constants)
  then show ?thesis
    using assms(1) by (simp add: pq_from_linear_def powf_Some fdiv_def pq_g_def[symmetric])
qed

lemma pq_q_g: "0 \<le> u \<Longrightarrow> u \<le> 1 \<Longrightarrow> pq_q (pq_g u) = u"
proof -
  assume u: "0 \<le> u" "u \<le> 1"
  note g = pq_g_unit[OF u]
  have g0: "0 \<le> pq_g u" using g(2) by (simp add: pq_constants)
  from pq_q_unit(1)[OF g0 g(3)] have d: "0 < kPqC2 - kPqC3 * pq_g u" .
  have m: "maxf 0 (pq_g u - kPqC1) = pq_g u - kPqC1" using g(2) by (simp add: maxf_def)
  have "pq_g u * (1 + kPqC3 * u) = kPqC1 + kPqC2 * u" using g(1) by (simp add: pq_g_def)
  then have "pq_g u - kPqC1 = u * (kPqC2 - kPqC3 * pq_g u)" by (simp add: algebra_simps)
  then show ?thesis unfolding pq_q_def m using d by simp
qed

lemma pq_g_q:
  assumes "kPqC1 \<le> p" "p \<le> 1"
  shows "pq_g (pq_q p) = p"
proof -
  have p0: "0 \<le> p" using assms(1) by (simp add: pq_constants)
  note q = pq_q_unit[OF p0 assms(2)]
  have m: "maxf 0 (p - kPqC1) = p - kPqC1" using assms(1) by (simp add: maxf_def)
  have qd: "pq_q p * (kPqC2 - kPqC3 * p) = p - kPqC1" using q(1) by (simp add: pq_q_def m)
  have d: "0 < 1 + kPqC3 * pq_q p" using q(2) by (simp add: pq_constants add_pos_nonneg)
  have "(kPqC1 + kPqC2 * pq_q p) * (kPqC2 - kPqC3 * p)
        = p * (1 + kPqC3 * pq_q p) * (kPqC2 - kPqC3 * p)"
  proof -
    have "(kPqC1 + kPqC2 * pq_q p) * (kPqC2 - kPqC3 * p)
        = kPqC1 * (kPqC2 - kPqC3 * p) + kPqC2 * (pq_q p * (kPqC2 - kPqC3 * p))"
      by (simp add: algebra_simps)
    also have "\<dots> = p * (kPqC2 - kPqC3 * p) + p * kPqC3 * (pq_q p * (kPqC2 - kPqC3 * p))"
      unfolding qd by (simp add: algebra_simps)
    also have "\<dots> = p * (1 + kPqC3 * pq_q p) * (kPqC2 - kPqC3 * p)"
      by (simp add: algebra_simps)
    finally show ?thesis .
  qed
  then have "kPqC1 + kPqC2 * pq_q p = p * (1 + kPqC3 * pq_q p)" using q(1) by simp
  then show ?thesis using d by (simp add: pq_g_def field_simps)
qed

lemma pq_c1_small: "kPqC1 powr kPqM2 \<le> 1 / 10000"
proof -
  have "kPqC1 powr kPqM2 \<le> kPqC1 powr 78"
    using pq_constants(6) by (intro powr_mono') (simp_all add: pq_constants)
  also have "\<dots> = (107 / 128) ^ 78" by (simp add: pq_constants)
  also have "\<dots> \<le> 1 / 10000" by (simp add: power_divide)
  finally show ?thesis .
qed

lemma pq_g_mono:
  assumes "0 \<le> u" "u \<le> v"
  shows "pq_g u \<le> pq_g v"
proof -
  have v: "0 \<le> v" using assms by linarith
  have du: "0 < 1 + kPqC3 * u" and dv: "0 < 1 + kPqC3 * v"
    using assms(1) v by (simp_all add: pq_constants add_pos_nonneg)
  have "(kPqC1 + kPqC2 * v) * (1 + kPqC3 * u) - (kPqC1 + kPqC2 * u) * (1 + kPqC3 * v)
        = (kPqC2 - kPqC1 * kPqC3) * (v - u)"
    by (simp add: algebra_simps)
  moreover have "0 \<le> (kPqC2 - kPqC1 * kPqC3) * (v - u)"
    using assms(2) by (intro mult_nonneg_nonneg) (simp_all add: pq_constants)
  ultimately have
    "(kPqC1 + kPqC2 * u) * (1 + kPqC3 * v) \<le> (kPqC1 + kPqC2 * v) * (1 + kPqC3 * u)"
    by linarith
  then show ?thesis
    unfolding pq_g_def using du dv by (simp add: frac_le_eq divide_le_0_iff not_le mult.commute)
qed

lemma pq_to_linear_mono:
  assumes "0 \<le> a" "a \<le> b" "b \<le> 1"
  shows "pq_q (pq_p a) powr (1 / kPqM1) \<le> pq_q (pq_p b) powr (1 / kPqM1)"
proof -
  have a1: "a \<le> 1" and b0: "0 \<le> b" using assms by linarith+
  from pq_p_unit[OF assms(1) a1] pq_p_unit[OF b0 assms(3)] pq_p_mono[OF assms(1,2)]
  have "pq_q (pq_p a) \<le> pq_q (pq_p b)" by (intro pq_q_mono) simp_all
  moreover have "0 \<le> pq_q (pq_p a)"
    using pq_q_unit(2)[of "pq_p a"] pq_p_unit[OF assms(1) a1] by simp
  ultimately show ?thesis using pq_constants(4) by (intro powr_mono2) simp_all
qed

lemma pq_from_linear_le:
  assumes "0 \<le> a" "a \<le> b" "b \<le> 1"
  shows "pq_g (a powr kPqM1) powr kPqM2 \<le> pq_g (b powr kPqM1) powr kPqM2"
proof -
  have "a powr kPqM1 \<le> b powr kPqM1" using assms pq_constants(4) by (intro powr_mono2) simp_all
  then have "pq_g (a powr kPqM1) \<le> pq_g (b powr kPqM1)" by (intro pq_g_mono) simp_all
  moreover have "0 \<le> pq_g (a powr kPqM1)"
    using pq_g_unit(2)[of "a powr kPqM1"] powr_unit[of a kPqM1] assms pq_constants(4)
    by (simp add: pq_constants(1))
  ultimately show ?thesis using pq_constants(5) by (intro powr_mono2) simp_all
qed

text \<open>\<open>to_linear\<close> after \<open>from_linear\<close> is the identity on the unit interval.\<close>

lemma pq_to_from:
  assumes "0 \<le> y" "y \<le> 1"
  shows "pq_to_linear (pq_g (y powr kPqM1) powr kPqM2) = Some y"
proof -
  let ?u = "y powr kPqM1"
  have u: "0 \<le> ?u" "?u \<le> 1" using powr_unit[OF assms, of kPqM1] pq_constants(4) by simp_all
  note g = pq_g_unit[OF u]
  have g0: "0 \<le> pq_g ?u" using g(2) by (simp add: pq_constants)
  let ?s = "pq_g ?u powr kPqM2"
  have s: "0 \<le> ?s" "?s \<le> 1" using powr_unit[OF g0 g(3), of kPqM2] pq_constants(5) by simp_all
  have p: "pq_p ?s = pq_g ?u"
    unfolding pq_p_def using powr_inverse_exponent(1)[OF g0 pq_constants(5)] .
  have "pq_q (pq_p ?s) powr (1 / kPqM1) = ?u powr (1 / kPqM1)" by (simp only: p pq_q_g[OF u])
  also have "\<dots> = y" using powr_inverse_exponent(1)[OF assms(1) pq_constants(4)] .
  finally show ?thesis by (simp only: pq_to_linear_eq[OF s])
qed

text \<open>
  \<open>from_linear\<close> after \<open>to_linear\<close> is the identity where \<open>to_linear\<close> is not clamped to 0,
  and \<open>kPqC1 powr kPqM2\<close> below.
\<close>

lemma pq_from_to:
  assumes "0 \<le> x" "x \<le> 1"
  shows "\<exists>r. pq_from_linear (pq_q (pq_p x) powr (1 / kPqM1)) = Some r \<and> \<bar>r - x\<bar> \<le> 1 / 10000"
proof -
  from pq_p_unit[OF assms] have p: "0 \<le> pq_p x" "pq_p x \<le> 1" by simp_all
  note q = pq_q_unit[OF p]
  let ?l = "pq_q (pq_p x) powr (1 / kPqM1)"
  have l: "0 \<le> ?l" "?l \<le> 1" using powr_unit[OF q(2,3), of "1 / kPqM1"] pq_constants(4) by simp_all
  have lm: "?l powr kPqM1 = pq_q (pq_p x)"
    using powr_inverse_exponent(2)[OF q(2) pq_constants(4)] .
  have r: "pq_from_linear ?l = Some (pq_g (pq_q (pq_p x)) powr kPqM2)"
    by (simp only: pq_from_linear_eq[OF l] lm)
  have xp: "pq_p x powr kPqM2 = x"
    unfolding pq_p_def using powr_inverse_exponent(2)[OF assms(1) pq_constants(5)] .
  show ?thesis
  proof (cases "kPqC1 \<le> pq_p x")
    case True
    have "pq_g (pq_q (pq_p x)) powr kPqM2 = x" by (simp only: pq_g_q[OF True p(2)] xp)
    with r show ?thesis by simp
  next
    case False
    then have "pq_q (pq_p x) = 0" by (simp add: pq_q_def maxf_def)
    then have g: "pq_g (pq_q (pq_p x)) = kPqC1" by (simp add: pq_g_def)
    have "pq_p x powr kPqM2 \<le> kPqC1 powr kPqM2"
      using False p(1) pq_constants(5) by (intro powr_mono2) simp_all
    then have "x \<le> kPqC1 powr kPqM2" by (simp only: xp)
    with pq_c1_small assms(1) have "\<bar>kPqC1 powr kPqM2 - x\<bar> \<le> 1 / 10000" by simp
    with r g show ?thesis by simp
  qed
qed

lemma le_powr_ratI:
  fixes u v :: real
  assumes "0 < u" "0 < v" "0 < q" "u ^ q \<le> v ^ p"
  shows "u \<le> v powr (real p / real q)"
proof -
  have "(u ^ q) powr (1 / real q) \<le> (v ^ p) powr (1 / real q)"
    using assms by (intro powr_mono2) simp_all
  moreover have "(u ^ q) powr (1 / real q) = u"
    using assms(1,3) by (simp add: powr_realpow[symmetric] powr_powr)
  moreover have "(v ^ p) powr (1 / real q) = v powr (real p / real q)"
    using assms(2) by (simp add: powr_realpow[symmetric] powr_powr)
  ultimately show ?thesis by simp
qed

lemma powr_le_ratI:
  fixes u v :: real
  assumes "0 < u" "0 < v" "0 < q" "v ^ p \<le> u ^ q"
  shows "v powr (real p / real q) \<le> u"
proof -
  have "(v ^ p) powr (1 / real q) \<le> (u ^ q) powr (1 / real q)"
    using assms by (intro powr_mono2) simp_all
  moreover have "(u ^ q) powr (1 / real q) = u"
    using assms(1,3) by (simp add: powr_realpow[symmetric] powr_powr)
  moreover have "(v ^ p) powr (1 / real q) = v powr (real p / real q)"
    using assms(2) by (simp add: powr_realpow[symmetric] powr_powr)
  ultimately show ?thesis by simp
qed

text \<open>The sRGB curve: the two branches of each direction, and the numbers at the break points.\<close>

lemma srgb_to_linear_eq:
  "x \<le> 4045 / 100000 \<Longrightarrow> srgb_to_linear x = Some (x / 12.92)"
  "4045 / 100000 < x \<Longrightarrow> srgb_to_linear x = Some (((x + 0.055) / 1.055) powr (12 / 5))"
  by (simp_all add: srgb_to_linear_def powf_Some)

lemma srgb_from_linear_eq:
  "l \<le> 31308 / 10000000 \<Longrightarrow> srgb_from_linear l = Some (12.92 * l)"
  "31308 / 10000000 < l \<Longrightarrow> srgb_from_linear l = Some (1.055 * l powr (5 / 12) - 0.055)"
  by (simp_all add: srgb_from_linear_def powf_Some)

lemma srgb_numbers:
  "(4045 / 1292000 :: real) \<le> (1909 / 21100) powr (12 / 5)"
  "(1909 / 21100 :: real) powr (12 / 5) \<le> 314 / 100000"
  "(31309 / 10000000 :: real) powr (5 / 12) \<le> 905 / 10000"
proof -
  show "(4045 / 1292000 :: real) \<le> (1909 / 21100) powr (12 / 5)"
    using le_powr_ratI[of "4045 / 1292000" "1909 / 21100" 5 12] by (simp add: power_divide)
  show "(1909 / 21100 :: real) powr (12 / 5) \<le> 314 / 100000"
    using powr_le_ratI[of "314 / 100000" "1909 / 21100" 5 12] by (simp add: power_divide)
  show "(31309 / 10000000 :: real) powr (5 / 12) \<le> 905 / 10000"
    using powr_le_ratI[of "905 / 10000" "31309 / 10000000" 12 5] by (simp add: power_divide)
qed

lemma srgb_to_linear_mono:
  assumes "0 \<le> a" "a \<le> b"
  shows "\<exists>ta tb. srgb_to_linear a = Some ta \<and> srgb_to_linear b = Some tb \<and> ta \<le> tb"
proof -
  let ?T = "4045 / 100000 :: real"
  let ?m = "\<lambda>x::real. (x + 0.055) / 1.055"
  consider "b \<le> ?T" | "a \<le> ?T" "?T < b" | "?T < a" using assms(2) by linarith
  then show ?thesis
  proof cases
    case 1
    then have a: "a \<le> ?T" using assms(2) by linarith
    have "a / 12.92 \<le> b / 12.92" using assms(2) by simp
    with srgb_to_linear_eq(1)[OF a] srgb_to_linear_eq(1)[OF 1] show ?thesis by blast
  next
    case 2
    have "a / 12.92 \<le> 4045 / 1292000" using 2(1) by simp
    also note srgb_numbers(1)
    also have "(1909 / 21100) powr (12 / 5) \<le> ?m b powr (12 / 5)"
      using 2(2) by (intro powr_mono2) simp_all
    finally have "a / 12.92 \<le> ?m b powr (12 / 5)" .
    with srgb_to_linear_eq(1)[OF 2(1)] srgb_to_linear_eq(2)[OF 2(2)] show ?thesis by blast
  next
    case 3
    then have b: "?T < b" using assms(2) by linarith
    have "?m a powr (12 / 5) \<le> ?m b powr (12 / 5)"
      using assms by (intro powr_mono2) simp_all
    with srgb_to_linear_eq(2)[OF 3] srgb_to_linear_eq(2)[OF b] show ?thesis by blast
  qed
qed

lemma srgb_from_to:
  assumes "0 \<le> x" "x \<le> 1"
  shows "\<exists>l r. srgb_to_linear x = Some l \<and> srgb_from_linear l = Some r \<and> \<bar>r - x\<bar> \<le> 1 / 10000"
proof (cases "x \<le> 4045 / 100000")
  case True
  note l = srgb_to_linear_eq(1)[OF True]
  show ?thesis
  proof (cases "x / 12.92 \<le> 31308 / 10000000")
    case True
    have "\<bar>12.92 * (x / 12.92) - x\<bar> \<le> 1 / 10000" by simp
    with l srgb_from_linear_eq(1)[OF True] show ?thesis by blast
  next
    case False
    then have lo: "31308 / 10000000 < x / 12.92" by simp
    have hi: "x / 12.92 \<le> 31309 / 10000000" using \<open>x \<le> 4045 / 100000\<close> by simp
    have "(31308 / 10000000) powr (5 / 12) \<le> (x / 12.92) powr (5 / 12)"
      using lo by (intro powr_mono2) simp_all
    with srgb_break have p1: "904 / 10000 \<le> (x / 12.92) powr (5 / 12)" by linarith
    have "(x / 12.92) powr (5 / 12) \<le> (31309 / 10000000) powr (5 / 12)"
      using lo hi by (intro powr_mono2) simp_all
    with srgb_numbers(3) have p2: "(x / 12.92) powr (5 / 12) \<le> 905 / 10000" by linarith
    have x: "40449 / 1000000 \<le> x" using lo by simp
    have "1.055 * (x / 12.92) powr (5 / 12) - 0.055 - x \<le> 1 / 10000"
      "- (1.055 * (x / 12.92) powr (5 / 12) - 0.055 - x) \<le> 1 / 10000"
      using p1 p2 x \<open>x \<le> 4045 / 100000\<close> by simp_all
    then have "\<bar>1.055 * (x / 12.92) powr (5 / 12) - 0.055 - x\<bar> \<le> 1 / 10000"
      by (rule abs_leI)
    with l srgb_from_linear_eq(2)[OF lo] show ?thesis by blast
  qed
next
  case False
  then have x: "4045 / 100000 < x" by simp
  let ?m = "(x + 0.055) / 1.055"
  note l = srgb_to_linear_eq(2)[OF x]
  have m: "1909 / 21100 \<le> ?m" "0 < ?m" using x by simp_all
  have "31308 / 10000000 < (4045 / 1292000 :: real)" by simp
  also note srgb_numbers(1)
  also have "(1909 / 21100) powr (12 / 5) \<le> ?m powr (12 / 5)"
    using m(1) by (intro powr_mono2) simp_all
  finally have hi: "31308 / 10000000 < ?m powr (12 / 5)" .
  have "(?m powr (12 / 5)) powr (5 / 12) = ?m" using m(2) by (simp add: powr_powr)
  then have "\<bar>1.055 * (?m powr (12 / 5)) powr (5 / 12) - 0.055 - x\<bar> \<le> 1 / 10000" by simp
  with l srgb_from_linear_eq(2)[OF hi] show ?thesis by blast
qed

lemma srgb_to_from:
  assumes "0 \<le> y" "y \<le> 1"
  shows "\<exists>s r. srgb_from_linear y = Some s \<and> srgb_to_linear s = Some r \<and> \<bar>r - y\<bar> \<le> 1 / 10000"
proof (cases "y \<le> 31308 / 10000000")
  case True
  note s = srgb_from_linear_eq(1)[OF True]
  have lo: "12.92 * y \<le> 4045 / 100000" using True by simp
  have "\<bar>12.92 * y / 12.92 - y\<bar> \<le> 1 / 10000" by simp
  with s srgb_to_linear_eq(1)[OF lo] show ?thesis by blast
next
  case False
  then have y: "31308 / 10000000 < y" by simp
  let ?p = "y powr (5 / 12)"
  let ?s = "1.055 * ?p - 0.055"
  note s = srgb_from_linear_eq(2)[OF y]
  have "(31308 / 10000000) powr (5 / 12) \<le> ?p" using y by (intro powr_mono2) simp_all
  with srgb_break have p1: "904 / 10000 \<le> ?p" by linarith
  have py: "?p powr (12 / 5) = y" using y by (simp add: powr_powr)
  show ?thesis
  proof (cases "?s \<le> 4045 / 100000")
    case True
    then have "?p \<le> 1909 / 21100" by simp
    then have "?p powr (12 / 5) \<le> (1909 / 21100) powr (12 / 5)"
      by (intro powr_mono2) simp_all
    with srgb_numbers(2) py have y2: "y \<le> 314 / 100000" by linarith
    have "?s / 12.92 - y \<le> 1 / 10000" "- (?s / 12.92 - y) \<le> 1 / 10000"
      using p1 True y y2 by (simp_all add: diff_divide_distrib)
    then have "\<bar>?s / 12.92 - y\<bar> \<le> 1 / 10000" by (rule abs_leI)
    with s srgb_to_linear_eq(1)[OF True] show ?thesis by blast
  next
    case False
    then have hi: "4045 / 100000 < ?s" by simp
    have "(?s + 0.055) / 1.055 = ?p" by simp
    then have "\<bar>((?s + 0.055) / 1.055) powr (12 / 5) - y\<bar> \<le> 1 / 10000" by (simp only: py)
    with s srgb_to_linear_eq(2)[OF hi] show ?thesis by blast
  qed
qed

lemma powr_close:
  fixes v w r p :: real
  assumes "0 < r" "r \<le> 1" "0 \<le> w" "r * w \<le> v" "0 \<le> p" "p \<le> 2"
  shows "r\<^sup>2 * w powr p \<le> v powr p"
proof -
  have "r powr 2 \<le> r powr p" using assms(1,2,6) by (intro powr_mono') simp_all
  then have "r\<^sup>2 \<le> r powr p" using assms(1) by simp
  then have "r\<^sup>2 * w powr p \<le> r powr p * w powr p" by (intro mult_right_mono) simp_all
  also have "\<dots> = (r * w) powr p" using assms(1,3) by (simp add: powr_mult)
  also have "\<dots> \<le> v powr p" using assms(1,3,4,5) by (intro powr_mono2) simp_all
  finally show ?thesis .
qed

text \<open>The HLG curve: the exponential at the break point, and the two branches.\<close>

lemma hlg_exp_bounds:
  "7153 / 10000 \<le> exp ((1 / 2 - kHlgC) / kHlgA)"
  "exp ((1 / 2 - kHlgC) / kHlgA) \<le> 7154 / 10000"
  "1 - kHlgB < exp ((50005 / 100000 - kHlgC) / kHlgA)"
proof -
  have "(7153 / 10000 :: real) \<le> (\<Sum>m<6. (- (33501 / 100000)) ^ m / fact m)"
    by (simp add: eval_nat_numeral lessThan_Suc)
  also have "\<dots> \<le> exp (- (33501 / 100000))" by (rule exp_ge_taylor_even) simp
  also have "\<dots> \<le> exp ((1 / 2 - kHlgC) / kHlgA)" by (simp add: kHlgA_def kHlgC_def)
  finally show "7153 / 10000 \<le> exp ((1 / 2 - kHlgC) / kHlgA)" .
next
  have "(10000 / 7154 :: real) \<le> (\<Sum>m<6. (3350 / 10000) ^ m / fact m)"
    by (simp add: eval_nat_numeral lessThan_Suc)
  also have "\<dots> \<le> exp (3350 / 10000)" by (rule exp_ge_taylor_pos) simp
  finally have "1 / exp (3350 / 10000 :: real) \<le> 1 / (10000 / 7154)"
    by (intro divide_left_mono) simp_all
  then have "exp (- (3350 / 10000)) \<le> (7154 / 10000 :: real)"
    by (simp add: exp_minus inverse_eq_divide)
  moreover have "exp ((1 / 2 - kHlgC) / kHlgA) \<le> exp (- (3350 / 10000))"
    by (simp add: kHlgA_def kHlgC_def)
  ultimately show "exp ((1 / 2 - kHlgC) / kHlgA) \<le> 7154 / 10000" by linarith
next
  have "1 - kHlgB < 7154 / 10000" by (simp add: kHlgB_def)
  also have "(7154 / 10000 :: real) \<le> (\<Sum>m<6. (- (3348 / 10000)) ^ m / fact m)"
    by (simp add: eval_nat_numeral lessThan_Suc)
  also have "\<dots> \<le> exp (- (3348 / 10000))" by (rule exp_ge_taylor_even) simp
  also have "\<dots> \<le> exp ((50005 / 100000 - kHlgC) / kHlgA)" by (simp add: kHlgA_def kHlgC_def)
  finally show "1 - kHlgB < exp ((50005 / 100000 - kHlgC) / kHlgA)" .
qed

lemma hlg_to_linear_eq:
  "x \<le> 1 / 2 \<Longrightarrow> hlg_to_linear x = Some ((x * x / 3) powr (6 / 5))"
  "1 / 2 < x \<Longrightarrow>
     hlg_to_linear x = Some (((exp ((x - kHlgC) / kHlgA) + kHlgB) / 12) powr (6 / 5))"
proof -
  have "0 \<le> x * x / 3" by simp
  from powf_Some[OF this, of "1.2"] show
    "x \<le> 1 / 2 \<Longrightarrow> hlg_to_linear x = Some ((x * x / 3) powr (6 / 5))"
    by (simp add: hlg_to_linear_def)
  have "0 \<le> (exp ((x - kHlgC) / kHlgA) + kHlgB) / 12" by (simp add: kHlgB_def add_nonneg_nonneg)
  from powf_Some[OF this, of "1.2"] show "1 / 2 < x \<Longrightarrow>
     hlg_to_linear x = Some (((exp ((x - kHlgC) / kHlgA) + kHlgB) / 12) powr (6 / 5))"
    by (simp add: hlg_to_linear_def)
qed

lemma hlg_from_linear_eq:
  assumes "0 \<le> y"
  shows "y powr (5 / 6) \<le> 1 / 12 \<Longrightarrow> hlg_from_linear y = Some (sqrt (3 * y powr (5 / 6)))"
    "1 / 12 < y powr (5 / 6) \<Longrightarrow>
       hlg_from_linear y = Some (kHlgA * ln (12 * y powr (5 / 6) - kHlgB) + kHlgC)"
  using assms by (simp_all add: hlg_from_linear_def powf_Some sqrtf_def logf_def kHlgB_def)

lemma hlg_to_linear_almost_mono:
  assumes "0 \<le> a" "a \<le> b" "b \<le> 1"
  shows "\<exists>ta tb. hlg_to_linear a = Some ta \<and> hlg_to_linear b = Some tb \<and> ta \<le> tb + 1 / 10000"
proof -
  let ?E = "\<lambda>x. (exp ((x - kHlgC) / kHlgA) + kHlgB) / 12"
  have E0: "0 \<le> ?E x" for x by (simp add: kHlgB_def add_nonneg_nonneg)
  have b0: "0 \<le> b" using assms by linarith
  consider "b \<le> 1 / 2" | "a \<le> 1 / 2" "1 / 2 < b" | "1 / 2 < a" using assms(2) by linarith
  then show ?thesis
  proof cases
    case 1
    then have a: "a \<le> 1 / 2" using assms(2) by linarith
    have "a * a \<le> b * b" using assms(1,2) b0 by (intro mult_mono) simp_all
    then have "(a * a / 3) powr (6 / 5) \<le> (b * b / 3) powr (6 / 5)"
      by (intro powr_mono2) simp_all
    then have "(a * a / 3) powr (6 / 5) \<le> (b * b / 3) powr (6 / 5) + 1 / 10000" by simp
    with hlg_to_linear_eq(1)[OF a] hlg_to_linear_eq(1)[OF 1] show ?thesis by blast
  next
    case 2
    have "a * a \<le> (1 / 2) * (1 / 2)" using assms(1) 2(1) by (intro mult_mono) simp_all
    then have "(a * a / 3) powr (6 / 5) \<le> (1 / 12) powr (6 / 5)"
      by (intro powr_mono2) simp_all
    moreover have W: "(1 / 12 :: real) powr (6 / 5) \<le> 1" by (intro powr_le1) simp_all
    moreover have "(99996 / 100000)\<^sup>2 * (1 / 12) powr (6 / 5) \<le> ?E b powr (6 / 5)"
    proof (rule powr_close)
      have "(1 / 2 - kHlgC) / kHlgA \<le> (b - kHlgC) / kHlgA"
        using 2(2) by (intro divide_right_mono) (simp_all add: kHlgA_def)
      then have "exp ((1 / 2 - kHlgC) / kHlgA) \<le> exp ((b - kHlgC) / kHlgA)" by simp
      with hlg_exp_bounds(1) have "7153 / 10000 \<le> exp ((b - kHlgC) / kHlgA)" by linarith
      then show "99996 / 100000 * (1 / 12) \<le> ?E b" by (simp add: kHlgB_def)
    qed simp_all
    ultimately have "(a * a / 3) powr (6 / 5) \<le> ?E b powr (6 / 5) + 1 / 10000"
      by (simp add: power2_eq_square)
    with hlg_to_linear_eq(1)[OF 2(1)] hlg_to_linear_eq(2)[OF 2(2)] show ?thesis by blast
  next
    case 3
    then have b: "1 / 2 < b" using assms(2) by linarith
    have "(a - kHlgC) / kHlgA \<le> (b - kHlgC) / kHlgA"
      using assms(2) by (intro divide_right_mono) (simp_all add: kHlgA_def)
    then have "?E a \<le> ?E b" by simp
    then have "?E a powr (6 / 5) \<le> ?E b powr (6 / 5)" using E0[of a] by (intro powr_mono2) simp_all
    then have "?E a powr (6 / 5) \<le> ?E b powr (6 / 5) + 1 / 10000" by simp
    with hlg_to_linear_eq(2)[OF 3] hlg_to_linear_eq(2)[OF b] show ?thesis by blast
  qed
qed

lemma hlg_to_from:
  assumes "0 \<le> y" "y \<le> 1"
  shows "\<exists>s r. hlg_from_linear y = Some s \<and> hlg_to_linear s = Some r \<and> \<bar>r - y\<bar> \<le> 1 / 10000"
proof -
  let ?l = "y powr (5 / 6)"
  have l0: "0 \<le> ?l" by simp
  have l1: "?l \<le> 1" using assms by (intro powr_le1) simp_all
  have ly: "?l powr (6 / 5) = y" using assms(1) by (simp add: powr_powr)
  show ?thesis
  proof (cases "?l \<le> 1 / 12")
    case True
    note s = hlg_from_linear_eq(1)[OF assms(1) True]
    have "sqrt (3 * ?l) \<le> sqrt ((1 / 2)\<^sup>2)"
      using True by (intro real_sqrt_le_mono) (simp add: power2_eq_square)
    then have h: "sqrt (3 * ?l) \<le> 1 / 2" by simp
    have "sqrt (3 * ?l) * sqrt (3 * ?l) / 3 = ?l" by simp
    then have "\<bar>(sqrt (3 * ?l) * sqrt (3 * ?l) / 3) powr (6 / 5) - y\<bar> \<le> 1 / 10000"
      by (simp only: ly)
    with s hlg_to_linear_eq(1)[OF h] show ?thesis by blast
  next
    case False
    then have l: "1 / 12 < ?l" by simp
    let ?z = "12 * ?l - kHlgB"
    let ?s = "kHlgA * ln ?z + kHlgC"
    note s = hlg_from_linear_eq(2)[OF assms(1) l]
    have z: "1 - kHlgB < ?z" using l by simp
    then have z0: "0 < ?z" by (simp add: kHlgB_def)
    have sz: "(?s - kHlgC) / kHlgA = ln ?z" by (simp add: kHlgA_def)
    show ?thesis
    proof (cases "?s \<le> 1 / 2")
      case False
      then have h: "1 / 2 < ?s" by simp
      have "(exp ((?s - kHlgC) / kHlgA) + kHlgB) / 12 = ?l" using z0 by (simp only: sz exp_ln) simp
      then have "\<bar>((exp ((?s - kHlgC) / kHlgA) + kHlgB) / 12) powr (6 / 5) - y\<bar> \<le> 1 / 10000"
        by (simp only: ly)
      with s hlg_to_linear_eq(2)[OF h] show ?thesis by blast
    next
      case True
      let ?v = "?s * ?s / 3"
      have "- (3355 / 10000) \<le> ln (71533108 / 100000000 :: real)"
        using exp_neg_3355 by (subst ln_ge_iff) simp_all
      also have "\<dots> \<le> ln ?z" using z by (subst ln_le_cancel_iff) (simp_all add: kHlgB_def)
      finally have "kHlgA * (- (3355 / 10000)) \<le> kHlgA * ln ?z"
        by (intro mult_left_mono) (simp_all add: kHlgA_def)
      then have s1: "4999 / 10000 \<le> ?s" by (simp add: kHlgA_def kHlgC_def)
      then have "(4999 / 10000) * (4999 / 10000) \<le> ?s * ?s" by (intro mult_mono) simp_all
      then have v1: "(4999 / 10000) * (4999 / 10000) / 3 \<le> ?v" by simp
      have "?s * ?s \<le> (1 / 2) * (1 / 2)" using True s1 by (intro mult_mono) simp_all
      then have v2: "?v \<le> 1 / 12" by simp
      have "ln ?z \<le> (1 / 2 - kHlgC) / kHlgA"
        using True by (simp add: kHlgA_def field_simps)
      then have "exp (ln ?z) \<le> exp ((1 / 2 - kHlgC) / kHlgA)" by (simp only: exp_le_cancel_iff)
      with hlg_exp_bounds(2) z0 have "?z \<le> 7154 / 10000" by simp
      then have l2: "?l \<le> (7154 / 10000 + kHlgB) / 12" by simp
      have "(9995 / 10000)\<^sup>2 * ?l powr (6 / 5) \<le> ?v powr (6 / 5)"
      proof (rule powr_close)
        have "9995 / 10000 * ?l \<le> (4999 / 10000) * (4999 / 10000) / 3"
          using l2 by (simp add: kHlgB_def)
        with v1 show "9995 / 10000 * ?l \<le> ?v" by linarith
      qed (simp_all add: l0)
      then have r1: "(9995 / 10000)\<^sup>2 * y \<le> ?v powr (6 / 5)" by (simp only: ly)
      have "?v powr (6 / 5) \<le> ?l powr (6 / 5)"
        using v2 l by (intro powr_mono2) simp_all
      then have r2: "?v powr (6 / 5) \<le> y" by (simp only: ly)
      have "?l powr (6 / 5) \<le> ?l powr 1" using l0 l1 by (intro powr_mono') simp_all
      then have "y \<le> ?l" using l0 by (simp add: ly)
      with l2 have y2: "y \<le> 834 / 10000" by (simp add: kHlgB_def)
      have "?v powr (6 / 5) - y \<le> 1 / 10000" "- (?v powr (6 / 5) - y) \<le> 1 / 10000"
        using r1 r2 y2 assms(1) by (simp_all add: power2_eq_square)
      then have "\<bar>?v powr (6 / 5) - y\<bar> \<le> 1 / 10000" by (rule abs_leI)
      with s hlg_to_linear_eq(1)[OF True] show ?thesis by blast
    qed
  qed
qed

lemma hlg_from_to:
  assumes "0 \<le> x" "x \<le> 1"
  shows "\<exists>l r. hlg_to_linear x = Some l \<and> hlg_from_linear l = Some r \<and> \<bar>r - x\<bar> \<le> 1 / 10000"
proof (cases "x \<le> 1 / 2")
  case True
  let ?l = "(x * x / 3) powr (6 / 5)"
  note l = hlg_to_linear_eq(1)[OF True]
  have l0: "0 \<le> ?l" by simp
  have li: "?l powr (5 / 6) = x * x / 3" by (simp add: powr_powr)
  have "x * x \<le> (1 / 2) * (1 / 2)" using assms(1) True by (intro mult_mono) simp_all
  then have "?l powr (5 / 6) \<le> 1 / 12" by (simp add: li)
  note r = hlg_from_linear_eq(1)[OF l0 this]
  have "sqrt (3 * ?l powr (5 / 6)) = x" using assms(1) by (simp add: li)
  then have "\<bar>sqrt (3 * ?l powr (5 / 6)) - x\<bar> \<le> 1 / 10000" by simp
  with l r show ?thesis by blast
next
  case False
  then have x: "1 / 2 < x" by simp
  let ?e = "exp ((x - kHlgC) / kHlgA)"
  let ?I = "(?e + kHlgB) / 12"
  let ?l = "?I powr (6 / 5)"
  note l = hlg_to_linear_eq(2)[OF x]
  have I0: "0 < ?I" by (simp add: kHlgB_def add_pos_pos)
  have l0: "0 \<le> ?l" by simp
  have li: "?l powr (5 / 6) = ?I" using I0 by (simp add: powr_powr)
  show ?thesis
  proof (cases "?l powr (5 / 6) \<le> 1 / 12")
    case False
    then have h: "1 / 12 < ?l powr (5 / 6)" by simp
    note r = hlg_from_linear_eq(2)[OF l0 h]
    have e: "12 * ?l powr (5 / 6) - kHlgB = ?e" by (simp only: li) (simp add: add_divide_distrib)
    have "kHlgA \<noteq> 0" by (simp add: kHlgA_def)
    then have "kHlgA * ((x - kHlgC) / kHlgA) + kHlgC = x" by simp
    then have "kHlgA * ln (12 * ?l powr (5 / 6) - kHlgB) + kHlgC = x"
      by (simp only: e ln_exp)
    then have "\<bar>kHlgA * ln (12 * ?l powr (5 / 6) - kHlgB) + kHlgC - x\<bar> \<le> 1 / 10000" by simp
    with l r show ?thesis by blast
  next
    case True
    note r = hlg_from_linear_eq(1)[OF l0 True]
    have I1: "?I \<le> 1 / 12" using True by (simp only: li)
    have "(1 / 2 - kHlgC) / kHlgA \<le> (x - kHlgC) / kHlgA"
      using x by (intro divide_right_mono) (simp_all add: kHlgA_def)
    then have "exp ((1 / 2 - kHlgC) / kHlgA) \<le> ?e" by simp
    with hlg_exp_bounds(1) have "7153 / 10000 \<le> ?e" by linarith
    then have "(49999 / 100000)\<^sup>2 \<le> 3 * ?I" by (simp add: kHlgB_def power2_eq_square)
    then have r1: "49999 / 100000 \<le> sqrt (3 * ?I)" by (rule real_le_rsqrt)
    have "sqrt (3 * ?I) \<le> sqrt ((1 / 2)\<^sup>2)"
      using I1 by (intro real_sqrt_le_mono) (simp add: power2_eq_square)
    then have r2: "sqrt (3 * ?I) \<le> 1 / 2" by simp
    have x2: "x \<le> 50005 / 100000"
    proof (rule ccontr)
      assume "\<not> x \<le> 50005 / 100000"
      then have "(50005 / 100000 - kHlgC) / kHlgA \<le> (x - kHlgC) / kHlgA"
        by (intro divide_right_mono) (simp_all add: kHlgA_def)
      then have "exp ((50005 / 100000 - kHlgC) / kHlgA) \<le> ?e" by simp
      with hlg_exp_bounds(3) have "1 - kHlgB < ?e" by linarith
      with I1 show False by simp
    qed
    have "sqrt (3 * ?I) - x \<le> 1 / 10000" "- (sqrt (3 * ?I) - x) \<le> 1 / 10000"
      using r1 r2 x x2 by simp_all
    then have "\<bar>sqrt (3 * ?I) - x\<bar> \<le> 1 / 10000" by (rule abs_leI)
    then have "\<bar>sqrt (3 * ?l powr (5 / 6)) - x\<bar> \<le> 1 / 10000" by (simp only: li)
    with l r show ?thesis by blast
  qed
qed

lemma inverse_pairI:
  fixes t f :: "real \<Rightarrow> real option"
  assumes "\<exists>ta tb. t a = Some ta \<and> t b = Some tb \<and> ta \<le> tb + 1 / 10000"
    and "\<exists>fa fb. f a = Some fa \<and> f b = Some fb \<and>
           fa - 1 / 10000 \<le> fb \<and> (a = 0 \<and> b = 1 \<longrightarrow> fa \<le> fb)"
    and "\<exists>l r. t a = Some l \<and> f l = Some r \<and> \<bar>r - a\<bar> \<le> 1 / 10000"
    and "\<exists>s r. f a = Some s \<and> t s = Some r \<and> \<bar>r - a\<bar> \<le> 1 / 10000"
  shows "\<exists>ta tb fa fb r s.
           t a = Some ta \<and> t b = Some tb \<and> ta \<le> tb + 1 / 10000 \<and>
           f a = Some fa \<and> f b = Some fb \<and> fa \<le> fb + 1 / 10000 \<and>
           f ta = Some r \<and> \<bar>r - a\<bar> \<le> 1 / 10000 \<and>
           t fa = Some s \<and> \<bar>s - a\<bar> \<le> 1 / 10000"
proof -
  from assms(1) obtain ta tb where
    t: "t a = Some ta" "t b = Some tb" "ta \<le> tb + 1 / 10000" by blast
  from assms(2) obtain fa fb where
    f: "f a = Some fa" "f b = Some fb" "fa - 1 / 10000 \<le> fb" by blast
  from assms(3) t(1) obtain r where r: "f ta = Some r" "\<bar>r - a\<bar> \<le> 1 / 10000" by auto
  from assms(4) f(1) obtain s where s: "t fa = Some s" "\<bar>s - a\<bar> \<le> 1 / 10000" by auto
  have "fa \<le> fb + 1 / 10000" using f(3) by linarith
  with t f(1,2) r s show ?thesis by blast
qed

lemma gamma22_inverse_pair:
  assumes "0 \<le> a" "a \<le> b"
  shows "\<exists>ta tb fa fb r s.
           gamma22_to_linear a = Some ta \<and> gamma22_to_linear b = Some tb \<and>
           ta \<le> tb + 1 / 10000 \<and>
           gamma22_from_linear a = Some fa \<and> gamma22_from_linear b = Some fb \<and>
           fa \<le> fb + 1 / 10000 \<and>
           gamma22_from_linear ta = Some r \<and> \<bar>r - a\<bar> \<le> 1 / 10000 \<and>
           gamma22_to_linear fa = Some s \<and> \<bar>s - a\<bar> \<le> 1 / 10000"
proof (rule inverse_pairI)
  have b: "0 \<le> b" using assms by linarith
  note ga = gamma22_exact[OF assms] and gb = gamma22_exact[OF b order_refl]
  have "a powr 2.2 \<le> b powr 2.2 + 1 / 10000" using ga(3) by linarith
  with ga(1) gb(1) show "\<exists>ta tb. gamma22_to_linear a = Some ta \<and>
      gamma22_to_linear b = Some tb \<and> ta \<le> tb + 1 / 10000" by blast
  show "\<exists>fa fb. gamma22_from_linear a = Some fa \<and> gamma22_from_linear b = Some fb \<and>
           fa - 1 / 10000 \<le> fb \<and> (a = 0 \<and> b = 1 \<longrightarrow> fa \<le> fb)"
    using assms by (rule gamma22_from_linear_mono)
  have e: "\<bar>a - a\<bar> \<le> 1 / 10000" by simp
  from ga(1) ga(5) e show "\<exists>l r. gamma22_to_linear a = Some l \<and>
      gamma22_from_linear l = Some r \<and> \<bar>r - a\<bar> \<le> 1 / 10000" by blast
  from ga(2) ga(6) e show "\<exists>s r. gamma22_from_linear a = Some s \<and>
      gamma22_to_linear s = Some r \<and> \<bar>r - a\<bar> \<le> 1 / 10000" by blast
qed

lemma gamma28_inverse_pair:
  assumes "0 \<le> a" "a \<le> b"
  shows "\<exists>ta tb fa fb r s.
           gamma28_to_linear a = Some ta \<and> gamma28_to_linear b = Some tb \<and>
           ta \<le> tb + 1 / 10000 \<and>
           gamma28_from_linear a = Some fa \<and> gamma28_from_linear b = Some fb \<and>
           fa \<le> fb + 1 / 10000 \<and>
           gamma28_from_linear ta = Some r \<and> \<bar>r - a\<bar> \<le> 1 / 10000 \<and>
           gamma28_to_linear fa = Some s \<and> \<bar>s - a\<bar> \<le> 1 / 10000"
proof (rule inverse_pairI)
  have b: "0 \<le> b" using assms by linarith
  note ga = gamma28_exact[OF assms] and gb = gamma28_exact[OF b order_refl]
  have "a powr 2.8 \<le> b powr 2.8 + 1 / 10000" using ga(3) by linarith
  with ga(1) gb(1) show "\<exists>ta tb. gamma28_to_linear a = Some ta \<and>
      gamma28_to_linear b = Some tb \<and> ta \<le> tb + 1 / 10000" by blast
  show "\<exists>fa fb. gamma28_from_linear a = Some fa \<and> gamma28_from_linear b = Some fb \<and>
           fa - 1 / 10000 \<le> fb \<and> (a = 0 \<and> b = 1 \<longrightarrow> fa \<le> fb)"
    using assms by (rule gamma28_from_linear_mono)
  have e: "\<bar>a - a\<bar> \<le> 1 / 10000" by simp
  from ga(1) ga(5) e show "\<exists>l r. gamma28_to_linear a = Some l \<and>
      gamma28_from_linear l = Some r \<and> \<bar>r - a\<bar> \<le> 1 / 10000" by blast
  from ga(2) ga(6) e show "\<exists>s r. gamma28_from_linear a = Some s \<and>
      gamma28_to_linear s = Some r \<and> \<bar>r - a\<bar> \<le> 1 / 10000" by blast
qed

lemma pq_inverse_pair:
  assumes "0 \<le> a" "a \<le> b" "b \<le> 1"
  shows "\<exists>ta tb fa fb r s.
           pq_to_linear a = Some ta \<and> pq_to_linear b = Some tb \<and> ta \<le> tb + 1 / 10000 \<and>
           pq_from_linear a = Some fa \<and> pq_from_linear b = Some fb \<and> fa \<le> fb + 1 / 10000 \<and>
           pq_from_linear ta = Some r \<and> \<bar>r - a\<bar> \<le> 1 / 10000 \<and>
           pq_to_linear fa = Some s \<and> \<bar>s - a\<bar> \<le> 1 / 10000"
proof (rule inverse_pairI)
  have a1: "a \<le> 1" and b0: "0 \<le> b" using assms by linarith+
  note ta = pq_to_linear_eq[OF assms(1) a1] and tb = pq_to_linear_eq[OF b0 assms(3)]
  have "pq_q (pq_p a) powr (1 / kPqM1) \<le> pq_q (pq_p b) powr (1 / kPqM1) + 1 / 10000"
    using pq_to_linear_mono[OF assms] by linarith
  with ta tb show "\<exists>ta tb. pq_to_linear a = Some ta \<and> pq_to_linear b = Some tb \<and>
      ta \<le> tb + 1 / 10000" by blast
  show "\<exists>fa fb. pq_from_linear a = Some fa \<and> pq_from_linear b = Some fb \<and>
           fa - 1 / 10000 \<le> fb \<and> (a = 0 \<and> b = 1 \<longrightarrow> fa \<le> fb)"
    using assms(1,2) by (rule pq_from_linear_mono)
  from ta pq_from_to[OF assms(1) a1] show "\<exists>l r. pq_to_linear a = Some l \<and>
      pq_from_linear l = Some r \<and> \<bar>r - a\<bar> \<le> 1 / 10000" by blast
  have e: "\<bar>a - a\<bar> \<le> 1 / 10000" by simp
  from pq_from_linear_eq[OF assms(1) a1] pq_to_from[OF assms(1) a1] e
  show "\<exists>s r. pq_from_linear a = Some s \<and> pq_to_linear s = Some r \<and> \<bar>r - a\<bar> \<le> 1 / 10000"
    by blast
qed

lemma srgb_inverse_pair:
  assumes "0 \<le> a" "a \<le> b" "b \<le> 1"
  shows "\<exists>ta tb fa fb r s.
           srgb_to_linear a = Some ta \<and> srgb_to_linear b = Some tb \<and> ta \<le> tb + 1 / 10000 \<and>
           srgb_from_linear a = Some fa \<and> srgb_from_linear b = Some fb \<and>
           fa \<le> fb + 1 / 10000 \<and>
           srgb_from_linear ta = Some r \<and> \<bar>r - a\<bar> \<le> 1 / 10000 \<and>
           srgb_to_linear fa = Some s \<and> \<bar>s - a\<bar> \<le> 1 / 10000"
proof (rule inverse_pairI)
  have a1: "a \<le> 1" using assms by linarith
  from srgb_to_linear_mono[OF assms(1,2)] obtain ta tb where
    "srgb_to_linear a = Some ta" "srgb_to_linear b = Some tb" "ta \<le> tb" by blast
  moreover from this(3) have "ta \<le> tb + 1 / 10000" by linarith
  ultimately show "\<exists>ta tb. srgb_to_linear a = Some ta \<and> srgb_to_linear b = Some tb \<and>
      ta \<le> tb + 1 / 10000" by blast
  show "\<exists>fa fb. srgb_from_linear a = Some fa \<and> srgb_from_linear b = Some fb \<and>
           fa - 1 / 10000 \<le> fb \<and> (a = 0 \<and> b = 1 \<longrightarrow> fa \<le> fb)"
    using assms by (rule srgb_from_linear_almost_mono)
  show "\<exists>l r. srgb_to_linear a = Some l \<and> srgb_from_linear l = Some r \<and>
      \<bar>r - a\<bar> \<le> 1 / 10000"
    using assms(1) a1 by (rule srgb_from_to)
  show "\<exists>s r. srgb_from_linear a = Some s \<and> srgb_to_linear s = Some r \<and>
      \<bar>r - a\<bar> \<le> 1 / 10000"
    using assms(1) a1 by (rule srgb_to_from)
qed

lemma hlg_inverse_pair:
  assumes "0 \<le> a" "a \<le> b" "b \<le> 1"
  shows "\<exists>ta tb fa fb r s.
           hlg_to_linear a = Some ta \<and> hlg_to_linear b = Some tb \<and> ta \<le> tb + 1 / 10000 \<and>
           hlg_from_linear a = Some fa \<and> hlg_from_linear b = Some fb \<and>
           fa \<le> fb + 1 / 10000 \<and>
           hlg_from_linear ta = Some r \<and> \<bar>r - a\<bar> \<le> 1 / 10000 \<and>
           hlg_to_linear fa = Some s \<and> \<bar>s - a\<bar> \<le> 1 / 10000"
proof (rule inverse_pairI)
  have a1: "a \<le> 1" using assms by linarith
  show "\<exists>ta tb. hlg_to_linear a = Some ta \<and> hlg_to_linear b = Some tb \<and>
      ta \<le> tb + 1 / 10000"
    using assms by (rule hlg_to_linear_almost_mono)
  show "\<exists>fa fb. hlg_from_linear a = Some fa \<and> hlg_from_linear b = Some fb \<and>
           fa - 1 / 10000 \<le> fb \<and> (a = 0 \<and> b = 1 \<longrightarrow> fa \<le> fb)"
    using assms by (rule hlg_from_linear_almost_mono)
  show "\<exists>l r. hlg_to_linear a = Some l \<and> hlg_from_linear l = Some r \<and>
      \<bar>r - a\<bar> \<le> 1 / 10000"
    using assms(1) a1 by (rule hlg_from_to)
  show "\<exists>s r. hlg_from_linear a = Some s \<and> hlg_to_linear s = Some r \<and>
      \<bar>r - a\<bar> \<le> 1 / 10000"
    using assms(1) a1 by (rule hlg_to_from)
qed

lemma srgb_step_number:
  "(3130801 / 1000000000 :: real) powr (5 / 12) \<le> 904738729 / 10000000000"
  using powr_le_ratI[of "904738729 / 10000000000" "3130801 / 1000000000" 12 5]
  by (simp add: power_divide)

section \<open>The claims\<close>

text \<open>
  C6.  The HLG curve, with the cast of line 242 read as the cast to \<open>float\<close>:
  \<open>to_linear\<close> is \<open>(hlg\<^sup>2 / 3) powr 1.2\<close> for \<open>hlg \<le> 0.5\<close> and
  \<open>((exp ((hlg - 0.55991073) / 0.17883277) + 0.28466892) / 12) powr 1.2\<close> above;
  \<open>from_linear\<close> takes the power \<open>1 / 1.2\<close> and then the OETF, the square root of three
  times the value up to \<open>1 / 12\<close> and \<open>a * ln (12 * e - b) + c\<close> above; the mid-tone is
  \<open>26 / 1000\<close>; and these three are what the catalogue returns for HLG.  As the source
  is distributed the cast names \<open>flout\<close>, which nothing declares.
\<close>

theorem hlg_transfer_function:
  "(hlg \<le> 1 / 2 \<longrightarrow> hlg_to_linear hlg = Some ((hlg\<^sup>2 / 3) powr (12 / 10))) \<and>
   (1 / 2 < hlg \<longrightarrow>
      hlg_to_linear hlg =
        Some (((exp ((hlg - 55991073 / 100000000) / (17883277 / 100000000)) +
                28466892 / 100000000) / 12) powr (12 / 10))) \<and>
   (0 \<le> lin \<and> lin powr (10 / 12) \<le> 1 / 12 \<longrightarrow>
      hlg_from_linear lin = Some (sqrt (3 * lin powr (10 / 12)))) \<and>
   (0 \<le> lin \<and> 1 / 12 < lin powr (10 / 12) \<longrightarrow>
      hlg_from_linear lin =
        Some (17883277 / 100000000 * ln (12 * lin powr (10 / 12) - 28466892 / 100000000) +
              55991073 / 100000000)) \<and>
   find_transfer_function AOM_CICP_TC_HLG = Inr kHlgTransferFunction \<and>
   to_linear kHlgTransferFunction = hlg_to_linear \<and>
   from_linear kHlgTransferFunction = hlg_from_linear \<and>
   mid_tone kHlgTransferFunction = 26 / 1000"
proof (intro conjI impI)
  have a: "0 \<le> hlg\<^sup>2 / 3" by simp
  show "hlg_to_linear hlg = Some ((hlg\<^sup>2 / 3) powr (12 / 10))" if "hlg \<le> 1 / 2"
    using that a by (simp add: hlg_to_linear_def powf_def power2_eq_square)
  show "hlg_to_linear hlg =
        Some (((exp ((hlg - 55991073 / 100000000) / (17883277 / 100000000)) +
                28466892 / 100000000) / 12) powr (12 / 10))" if "1 / 2 < hlg"
    using that by (simp add: hlg_to_linear_def powf_def kHlgA_def kHlgB_def kHlgC_def
        not_less add_nonneg_nonneg)
  show "hlg_from_linear lin = Some (sqrt (3 * lin powr (10 / 12)))"
    if "0 \<le> lin \<and> lin powr (10 / 12) \<le> 1 / 12"
    using that by (simp add: hlg_from_linear_def powf_def sqrtf_def)
  show "hlg_from_linear lin =
        Some (17883277 / 100000000 * ln (12 * lin powr (10 / 12) - 28466892 / 100000000) +
              55991073 / 100000000)"
    if "0 \<le> lin \<and> 1 / 12 < lin powr (10 / 12)"
    using that by (simp add: hlg_from_linear_def powf_def logf_def kHlgA_def kHlgB_def kHlgC_def)
qed (simp_all add: kHlgTransferFunction_def)

theorem hlg_transfer_function_witness:
  "hlg_to_linear 0 = Some 0 \<and> hlg_to_linear (55991073 / 100000000) =
     Some (((1 + 28466892 / 100000000) / 12) powr (12 / 10)) \<and>
   hlg_from_linear 0 = Some 0 \<and> hlg_from_linear 1 = Some (17883277 / 100000000 * ln (12 - 28466892 / 100000000) +
              55991073 / 100000000)"
  using hlg_transfer_function[of 0 0]
    hlg_transfer_function[of "55991073 / 100000000" 1]
  by simp

text \<open>
  C7.  The lookup returns the curve of each of the five identifiers, and for every other
  identifier it ends in the fatal error; it has no default curve, so it returns a curve
  exactly for the five.
\<close>

theorem find_transfer_function_closed:
  "find_transfer_function AOM_CICP_TC_BT_470_M = Inr kGamma22TransferFunction
   \<and> find_transfer_function AOM_CICP_TC_BT_470_B_G = Inr kGamma28TransferFunction
   \<and> find_transfer_function AOM_CICP_TC_SRGB = Inr kSRgbTransferFunction
   \<and> find_transfer_function AOM_CICP_TC_SMPTE_2084 = Inr kPqTransferFunction
   \<and> find_transfer_function AOM_CICP_TC_HLG = Inr kHlgTransferFunction
   \<and> find_transfer_function (AOM_CICP_TC_other n) =
        Inl (Fatal ''unimplemented transfer function %d'' (AOM_CICP_TC_other n))
   \<and> ((\<exists>tf. find_transfer_function tc = Inr tf) =
        (tc \<in> {AOM_CICP_TC_BT_470_M, AOM_CICP_TC_BT_470_B_G, AOM_CICP_TC_SRGB,
                AOM_CICP_TC_SMPTE_2084, AOM_CICP_TC_HLG}))"
  by (cases tc) simp_all

text \<open>
  C2.  A call that returns leaves \<open>num_y_points = 14\<close> and fourteen rows whose
  x-coordinates are \<open>round (255 * i / 13)\<close>, that is 0, 20, 39, ..., 235, 255: strictly
  increasing, within \<open>[0, 255]\<close>, the first 0 and the last 255.  On validated input
  (positive sizes and ISO, a curve of the catalogue, a product of the sizes that fits
  \<open>int\<close>, arrays of the declared sizes) the call does return.
\<close>

theorem fourteen_scaling_points:
  "(0 < width args \<and> 0 < height args \<and> 0 < iso_setting args \<and>
      width args * height args \<le> INT_MAX \<and>
      transfer_function args \<in> set transfer_function_catalog \<and>
      14 \<le> length (scaling_points_y fg) \<and> ar_coeffs_cb fg \<noteq> [] \<and> ar_coeffs_cr fg \<noteq> []
      \<longrightarrow> generate_photon_noise args fg \<noteq> None) \<and>
   (generate_photon_noise args fg = Some fg' \<longrightarrow>
      num_y_points fg' = 14 \<and>
      14 \<le> length (scaling_points_y fg') \<and>
      map fst (take 14 (scaling_points_y fg')) = map (\<lambda>i. round (255 * real i / 13)) [0..<14] \<and>
      map fst (take 14 (scaling_points_y fg')) =
        [0, 20, 39, 59, 78, 98, 118, 137, 157, 177, 196, 216, 235, 255] \<and>
      sorted_wrt (<) (map fst (take 14 (scaling_points_y fg'))) \<and>
      (\<forall>x \<in> set (map fst (take 14 (scaling_points_y fg'))). 0 \<le> x \<and> x \<le> 255) \<and>
      fst (scaling_points_y fg' ! 0) = 0 \<and>
      fst (scaling_points_y fg' ! 13) = 255)"
proof (intro conjI impI)
  assume "0 < width args \<and> 0 < height args \<and> 0 < iso_setting args \<and>
      width args * height args \<le> INT_MAX \<and>
      transfer_function args \<in> set transfer_function_catalog \<and>
      14 \<le> length (scaling_points_y fg) \<and> ar_coeffs_cb fg \<noteq> [] \<and> ar_coeffs_cr fg \<noteq> []"
  then show "generate_photon_noise args fg \<noteq> None"
    by (intro generate_photon_noise_defined) simp_all
next
  assume g: "generate_photon_noise args fg = Some fg'"
  from generate_photon_noise_Some[OF g] obtain m where
    len: "14 \<le> length (scaling_points_y fg)"
      "length (scaling_points_y fg') = length (scaling_points_y fg)" and
    rows: "\<And>j. 0 \<le> j \<Longrightarrow> j < 14 \<Longrightarrow>
             scaling_point args m 14 j = Some (scaling_points_y fg' ! nat j)" and
    eq: "fg' = fg\<lparr>apply_grain := 1, update_parameters := 1,
                 scaling_points_y := scaling_points_y fg', num_y_points := 14,
                 num_cb_points := 0, num_cr_points := 0, scaling_shift := 8,
                 ar_coeff_lag := 0, ar_coeffs_cb := (ar_coeffs_cb fg)[0 := 0],
                 ar_coeffs_cr := (ar_coeffs_cr fg)[0 := 0], ar_coeff_shift := 6,
                 cb_mult := 0, cb_luma_mult := 0, cb_offset := 0,
                 cr_mult := 0, cr_luma_mult := 0, cr_offset := 0,
                 overlap_flag := 1, chroma_scaling_from_luma := 0, random_seed := 7391\<rparr>"
    by blast
  show n: "num_y_points fg' = 14" by (subst eq) simp
  show l: "14 \<le> length (scaling_points_y fg')" using len by simp
  have x: "fst (scaling_points_y fg' ! i) = round (255 * real i / 13)" if "i < 14" for i
    using scaling_point_x[OF rows[of "int i"]] that by simp
  show xs: "map fst (take 14 (scaling_points_y fg')) = map (\<lambda>i. round (255 * real i / 13)) [0..<14]"
    using l by (intro nth_equalityI) (simp_all add: x)
  then show xs': "map fst (take 14 (scaling_points_y fg')) =
        [0, 20, 39, 59, 78, 98, 118, 137, 157, 177, 196, 216, 235, 255]"
    by (simp only: round_255_13)
  show "sorted_wrt (<) (map fst (take 14 (scaling_points_y fg')))" by (simp add: xs')
  show "\<forall>x \<in> set (map fst (take 14 (scaling_points_y fg'))). 0 \<le> x \<and> x \<le> 255"
    by (simp add: xs')
  show "fst (scaling_points_y fg' ! 0) = 0" using x[of 0] by simp
  show "fst (scaling_points_y fg' ! 13) = 255" using x[of 13] by (simp add: round_def)
qed

theorem fourteen_scaling_points_witness:
  "map_option (\<lambda>fg. (num_y_points fg, map fst (take 14 (scaling_points_y fg))))
     (generate_photon_noise usage_args blank_film_grain) =
   Some (14, [0, 20, 39, 59, 78, 98, 118, 137, 157, 177, 196, 216, 235, 255])"
proof -
  from usage_defined obtain fg' where
    g: "generate_photon_noise usage_args blank_film_grain = Some fg'" by blast
  note t = fourteen_scaling_points[of usage_args blank_film_grain fg', THEN conjunct2, THEN mp, OF g]
  from t have a: "num_y_points fg' = 14" by (rule conjunct1)
  from t have b: "map fst (take 14 (scaling_points_y fg')) =
      [0, 20, 39, 59, 78, 98, 118, 137, 157, 177, 196, 216, 235, 255]"
    by (elim conjE)
  show ?thesis by (simp only: g option.map a b)
qed

text \<open>
  C8.  Two calls with the same arguments and the same descriptor return the same
  descriptor (the synthesizer is a function of its input), and in every descriptor it
  returns the auxiliary fields have their fixed values: seed 7391, no chroma scaling
  points, lag 0, overlap on, no chroma scaling from luma, \<open>apply_grain\<close> and
  \<open>update_parameters\<close> set.
\<close>

theorem generate_photon_noise_deterministic:
  assumes "generate_photon_noise args fg = Some d1" and "generate_photon_noise args fg = Some d2"
  shows "d1 = d2 \<and> random_seed d1 = 7391 \<and> num_cb_points d1 = 0 \<and> num_cr_points d1 = 0 \<and>
         ar_coeff_lag d1 = 0 \<and> overlap_flag d1 = 1 \<and> chroma_scaling_from_luma d1 = 0 \<and>
         apply_grain d1 = 1 \<and> update_parameters d1 = 1"
proof -
  from generate_photon_noise_Some[OF assms(1)] have
    eq: "d1 = fg\<lparr>apply_grain := 1, update_parameters := 1,
                 scaling_points_y := scaling_points_y d1, num_y_points := 14,
                 num_cb_points := 0, num_cr_points := 0, scaling_shift := 8,
                 ar_coeff_lag := 0, ar_coeffs_cb := (ar_coeffs_cb fg)[0 := 0],
                 ar_coeffs_cr := (ar_coeffs_cr fg)[0 := 0], ar_coeff_shift := 6,
                 cb_mult := 0, cb_luma_mult := 0, cb_offset := 0,
                 cr_mult := 0, cr_luma_mult := 0, cr_offset := 0,
                 overlap_flag := 1, chroma_scaling_from_luma := 0, random_seed := 7391\<rparr>"
    by blast
  have "d1 = d2" using assms by simp
  moreover have "random_seed d1 = 7391" "num_cb_points d1 = 0" "num_cr_points d1 = 0"
    "ar_coeff_lag d1 = 0" "overlap_flag d1 = 1" "chroma_scaling_from_luma d1 = 0"
    "apply_grain d1 = 1" "update_parameters d1 = 1"
    by (subst eq, simp)+
  ultimately show ?thesis by simp
qed

theorem generate_photon_noise_deterministic_witness:
  "map_option (\<lambda>d. (random_seed d, num_cb_points d, num_cr_points d, ar_coeff_lag d,
                     overlap_flag d, chroma_scaling_from_luma d, apply_grain d,
                     update_parameters d))
     (generate_photon_noise usage_args blank_film_grain) =
   Some (7391, 0, 0, 0, 1, 0, 1, 1)"
proof -
  from usage_defined obtain d where
    g: "generate_photon_noise usage_args blank_film_grain = Some d" by blast
  from generate_photon_noise_deterministic[OF g g] show ?thesis by (simp add: g)
qed

text \<open>
  C10.  A call that returns has changed the descriptor in the rows 0 to 13 of
  \<open>scaling_points_y\<close>, in \<open>num_y_points\<close>, in element 0 of \<open>ar_coeffs_cb\<close> and of
  \<open>ar_coeffs_cr\<close> and in the listed scalar fields, and in nothing else: the luma
  coefficients \<open>ar_coeffs_y\<close> and every field outside the model (the extension of the
  record) are those of the input.  Through \<open>main\<close>, which clears the descriptor first,
  \<open>ar_coeffs_y\<close> is all zero.
\<close>

theorem generate_photon_noise_frame:
  "(generate_photon_noise args fg = Some fg' \<longrightarrow>
      fg' = fg\<lparr>apply_grain := 1, update_parameters := 1,
                scaling_points_y := scaling_points_y fg', num_y_points := 14,
                num_cb_points := 0, num_cr_points := 0, scaling_shift := 8,
                ar_coeff_lag := 0, ar_coeffs_cb := (ar_coeffs_cb fg)[0 := 0],
                ar_coeffs_cr := (ar_coeffs_cr fg)[0 := 0], ar_coeff_shift := 6,
                cb_mult := 0, cb_luma_mult := 0, cb_offset := 0,
                cr_mult := 0, cr_luma_mult := 0, cr_offset := 0,
                overlap_flag := 1, chroma_scaling_from_luma := 0, random_seed := 7391\<rparr> \<and>
      length (scaling_points_y fg') = length (scaling_points_y fg) \<and>
      drop 14 (scaling_points_y fg') = drop 14 (scaling_points_y fg) \<and>
      ar_coeffs_y fg' = ar_coeffs_y fg \<and>
      aom_film_grain_t.more fg' = aom_film_grain_t.more fg) \<and>
   (main_film_grain args fg = Some fg'' \<longrightarrow>
      ar_coeffs_y fg'' = replicate (length (ar_coeffs_y fg)) 0)"
proof (intro conjI impI)
  assume g: "generate_photon_noise args fg = Some fg'"
  from generate_photon_noise_Some[OF g] obtain m where
    len: "length (scaling_points_y fg') = length (scaling_points_y fg)" and
    other: "\<And>k. 14 \<le> k \<Longrightarrow> scaling_points_y fg' ! k = scaling_points_y fg ! k" and
    eq: "fg' = fg\<lparr>apply_grain := 1, update_parameters := 1,
                scaling_points_y := scaling_points_y fg', num_y_points := 14,
                num_cb_points := 0, num_cr_points := 0, scaling_shift := 8,
                ar_coeff_lag := 0, ar_coeffs_cb := (ar_coeffs_cb fg)[0 := 0],
                ar_coeffs_cr := (ar_coeffs_cr fg)[0 := 0], ar_coeff_shift := 6,
                cb_mult := 0, cb_luma_mult := 0, cb_offset := 0,
                cr_mult := 0, cr_luma_mult := 0, cr_offset := 0,
                overlap_flag := 1, chroma_scaling_from_luma := 0, random_seed := 7391\<rparr>"
    by blast
  show "fg' = fg\<lparr>apply_grain := 1, update_parameters := 1,
                scaling_points_y := scaling_points_y fg', num_y_points := 14,
                num_cb_points := 0, num_cr_points := 0, scaling_shift := 8,
                ar_coeff_lag := 0, ar_coeffs_cb := (ar_coeffs_cb fg)[0 := 0],
                ar_coeffs_cr := (ar_coeffs_cr fg)[0 := 0], ar_coeff_shift := 6,
                cb_mult := 0, cb_luma_mult := 0, cb_offset := 0,
                cr_mult := 0, cr_luma_mult := 0, cr_offset := 0,
                overlap_flag := 1, chroma_scaling_from_luma := 0, random_seed := 7391\<rparr>"
    by (rule eq)
  show "length (scaling_points_y fg') = length (scaling_points_y fg)" by (rule len)
  show "drop 14 (scaling_points_y fg') = drop 14 (scaling_points_y fg)"
    using len by (intro nth_equalityI) (simp_all add: other)
  show "ar_coeffs_y fg' = ar_coeffs_y fg" by (subst eq) simp
  show "aom_film_grain_t.more fg' = aom_film_grain_t.more fg" by (subst eq) simp
next
  assume "main_film_grain args fg = Some fg''"
  then have g: "generate_photon_noise args (memset_film_grain fg) = Some fg''"
    by (simp add: main_film_grain_def)
  from generate_photon_noise_Some[OF g] have
    eq: "fg'' = (memset_film_grain fg)\<lparr>apply_grain := 1, update_parameters := 1,
                scaling_points_y := scaling_points_y fg'', num_y_points := 14,
                num_cb_points := 0, num_cr_points := 0, scaling_shift := 8,
                ar_coeff_lag := 0, ar_coeffs_cb := (ar_coeffs_cb (memset_film_grain fg))[0 := 0],
                ar_coeffs_cr := (ar_coeffs_cr (memset_film_grain fg))[0 := 0], ar_coeff_shift := 6,
                cb_mult := 0, cb_luma_mult := 0, cb_offset := 0,
                cr_mult := 0, cr_luma_mult := 0, cr_offset := 0,
                overlap_flag := 1, chroma_scaling_from_luma := 0, random_seed := 7391\<rparr>"
    by blast
  have "ar_coeffs_y fg'' = ar_coeffs_y (memset_film_grain fg)" by (subst eq) simp
  also have "\<dots> = replicate (length (ar_coeffs_y fg)) 0"
    by (simp add: memset_film_grain_def map_replicate_const)
  finally show "ar_coeffs_y fg'' = replicate (length (ar_coeffs_y fg)) 0" .
qed

theorem generate_photon_noise_frame_witness:
  "map_option ar_coeffs_y
     (generate_photon_noise usage_args (blank_film_grain\<lparr>ar_coeffs_y := [7, 0, 3]\<rparr>)) =
     Some [7, 0, 3] \<and>
   map_option ar_coeffs_y
     (main_film_grain usage_args (blank_film_grain\<lparr>ar_coeffs_y := [7, 0, 3]\<rparr>)) =
     Some [0, 0, 0]"
proof -
  let ?fg = "blank_film_grain\<lparr>ar_coeffs_y := [7, 0, 3]\<rparr>"
  have "generate_photon_noise usage_args ?fg \<noteq> None"
    by (rule generate_photon_noise_defined)
      (simp_all add: usage_args_def blank_film_grain_def transfer_function_catalog_def INT_MAX_def)
  then obtain fg' where g: "generate_photon_noise usage_args ?fg = Some fg'" by blast
  have "main_film_grain usage_args ?fg \<noteq> None"
    unfolding main_film_grain_def
    by (rule generate_photon_noise_defined)
      (simp_all add: usage_args_def blank_film_grain_def transfer_function_catalog_def
        INT_MAX_def memset_film_grain_def)
  then obtain fg'' where m: "main_film_grain usage_args ?fg = Some fg''" by blast
  note t = generate_photon_noise_frame[of usage_args ?fg fg' fg'']
  from t g have a: "ar_coeffs_y fg' = ar_coeffs_y ?fg" by blast
  from t m have b: "ar_coeffs_y fg'' = replicate (length (ar_coeffs_y ?fg)) 0" by blast
  show ?thesis using a b by (simp add: g m numeral_3_eq_3)
qed

text \<open>
  C3.  In a descriptor that a call on positive sizes and ISO and a curve of the catalogue
  returns, the noise amplitude of row \<open>i\<close> is \<open>round (255 * 7.88 * encoded_noise)\<close>
  clamped to \<open>[0, 255]\<close>, where \<open>encoded_noise\<close> is the value of that local in iteration
  \<open>i\<close>; so it lies in \<open>[0, 255]\<close>.  The code clamps from above only; the bound below
  holds because the value rounded is above \<open>- 1 / 2\<close>.
\<close>

theorem noise_amplitude_clamped:
  assumes "generate_photon_noise args fg = Some fg'"
    and "0 < width args" "0 < height args" "0 < iso_setting args"
    and "width args * height args \<le> INT_MAX"
    and "transfer_function args \<in> set transfer_function_catalog"
    and "i < 14"
  shows "\<exists>m en. max_electrons_per_pixel args = Some m \<and>
           encoded_noise args m 14 (int i) = Some (real i / 13, en) \<and>
           snd (scaling_points_y fg' ! i) = max 0 (min 255 (round (255 * 7.88 * en))) \<and>
           0 \<le> snd (scaling_points_y fg' ! i) \<and> snd (scaling_points_y fg' ! i) \<le> 255"
proof -
  from scaling_point_generated[OF assms] obtain m en where
    m: "max_electrons_per_pixel args = Some m" and
    en: "encoded_noise args m 14 (int i) = Some (real i / 13, en)" "- 1 / 10000 \<le> en" and
    row: "scaling_points_y fg' ! i =
            (round (255 * (real i / 13)), min 255 (round (255 * 7.88 * en)))"
    by blast
  have "- 1 / 2 < 255 * 7.88 * en" using en(2) by simp
  then have r: "0 \<le> round (255 * 7.88 * en)" by (rule round_nonneg)
  have s: "snd (scaling_points_y fg' ! i) = min 255 (round (255 * 7.88 * en))" by (simp add: row)
  have "snd (scaling_points_y fg' ! i) = max 0 (min 255 (round (255 * 7.88 * en)))"
    "0 \<le> snd (scaling_points_y fg' ! i)" "snd (scaling_points_y fg' ! i) \<le> 255"
    using r by (simp_all add: s)
  with m en(1) show ?thesis by (intro exI[of _ m] exI[of _ en]) simp
qed

theorem noise_amplitude_clamped_witness:
  "map_option (\<lambda>row. 0 \<le> snd row \<and> snd row \<le> 255)
     (emitted_point usage_args blank_film_grain 13) = Some True"
proof -
  from usage_defined obtain fg' where
    g: "generate_photon_noise usage_args blank_film_grain = Some fg'" by blast
  have "0 \<le> snd (scaling_points_y fg' ! 13) \<and> snd (scaling_points_y fg' ! 13) \<le> 255"
    using noise_amplitude_clamped[OF g, of 13]
    by (auto simp: usage_args_def transfer_function_catalog_def INT_MAX_def)
  then show ?thesis by (simp add: emitted_point_def g)
qed

text \<open>
  C9, as amended.  For positive sizes whose product fits \<open>int\<close>, a positive ISO setting and a curve
  of the catalogue whose \<open>to_linear\<close> maps \<open>[0, 1]\<close> into \<open>[0, 1]\<close>, every iteration
  \<open>i\<close> from 0 to 13 has its locals defined, a noise of at least the read noise
  (\<open>linear_noise * max_electrons_per_pixel \<ge> 1.5\<close>), \<open>linear_noise > 0\<close>, and a
  strictly positive \<open>linear_range_end - linear_range_start\<close>: the division that gives
  the slope has a divisor that is not zero.
\<close>

theorem slope_denominator_positive:
  assumes "0 < width args" "0 < height args" "0 < iso_setting args"
    and "width args * height args \<le> INT_MAX"
    and "transfer_function args \<in> set transfer_function_catalog"
    and "\<forall>x. 0 \<le> x \<and> x \<le> 1 \<longrightarrow>
           (\<exists>l. to_linear (transfer_function args) x = Some l \<and> 0 \<le> l \<and> l \<le> 1)"
    and "i < 14"
  shows "\<exists>m x l nz. max_electrons_per_pixel args = Some m \<and>
           sample_noise args m 14 (int i) = Some (x, l, nz) \<and>
           3 / 2 \<le> nz * m \<and> 0 < nz \<and>
           0 < linear_range_end l nz - linear_range_start l nz \<and>
           fdiv d (linear_range_end l nz - linear_range_start l nz) \<noteq> None"
proof -
  from max_electrons_per_pixel_Some[OF assms(1-4) catalog_mid_tone[OF assms(5)]]
  obtain m where m: "max_electrons_per_pixel args = Some m" "0 < m" by blast
  have x: "sample_x 14 (int i) = Some (real i / 13)"
    using sample_x_14[of "int i"] assms(7) by simp
  have "0 \<le> real i / 13 \<and> real i / 13 \<le> 1" using assms(7) by simp
  with assms(6) obtain l where
    l: "to_linear (transfer_function args) (real i / 13) = Some l" "0 \<le> l" "l \<le> 1" by blast
  from sample_noise_Some[OF m(2) x l(1,2)] obtain nz where
    nz: "sample_noise args m 14 (int i) = Some (real i / 13, l, nz)" "0 < nz" "l / 200 \<le> nz"
      "nz = sqrt ((3 / 2)\<^sup>2 + m * l + (m * l / 200)\<^sup>2) / m"
    by blast
  have "3 / 2 \<le> sqrt ((3 / 2)\<^sup>2 + m * l + (m * l / 200)\<^sup>2)"
    using m(2) l(2) by (intro real_le_rsqrt) simp
  then have read: "3 / 2 \<le> nz * m" using m(2) by (simp add: nz(4))
  have "l \<le> 1001 / 1000" using l(3) by simp
  from linear_range(2)[OF l(2) this nz(2,3)]
  have d: "0 < linear_range_end l nz - linear_range_start l nz" by simp
  then have "fdiv d (linear_range_end l nz - linear_range_start l nz) \<noteq> None"
    by (simp add: fdiv_def)
  with m(1) nz(1,2) read d show ?thesis
    by (intro exI[of _ m] exI[of _ "real i / 13"] exI[of _ l] exI[of _ nz]) simp
qed

theorem slope_denominator_positive_witness:
  "\<exists>m x l nz. max_electrons_per_pixel usage_args = Some m \<and>
           sample_noise usage_args m 14 13 = Some (x, l, nz) \<and>
           3 / 2 \<le> nz * m \<and> 0 < nz \<and>
           0 < linear_range_end l nz - linear_range_start l nz \<and>
           fdiv 1 (linear_range_end l nz - linear_range_start l nz) \<noteq> None"
proof -
  have tf: "to_linear (transfer_function usage_args) = srgb_to_linear"
    by (simp add: usage_args_def kSRgbTransferFunction_def)
  have unit: "\<forall>x. 0 \<le> x \<and> x \<le> 1 \<longrightarrow>
      (\<exists>l. to_linear (transfer_function usage_args) x = Some l \<and> 0 \<le> l \<and> l \<le> 1)"
    unfolding tf using srgb_to_linear_unit_interval by blast
  have "0 < width usage_args" "0 < height usage_args" "0 < iso_setting usage_args"
    "width usage_args * height usage_args \<le> INT_MAX"
    "transfer_function usage_args \<in> set transfer_function_catalog"
    by (simp_all add: usage_args_def INT_MAX_def transfer_function_catalog_def)
  from slope_denominator_positive[OF this unit, of 13 1] show ?thesis by simp
qed

text \<open>
  Without the bound on the product the divisor can be negative: \<open>65536 * 32768\<close> wraps
  to \<open>- 2^31\<close>, the pixel area and \<open>max_electrons_per_pixel\<close> are negative, and in
  iteration 0 so are \<open>linear_noise\<close> and \<open>linear_range_end - linear_range_start\<close>.
\<close>

theorem slope_denominator_negative:
  "max_electrons_per_pixel (usage_args\<lparr>width := 65536, height := 32768\<rparr>) =
     Some (- (131953125 / 67108864)) \<and>
   sample_noise (usage_args\<lparr>width := 65536, height := 32768\<rparr>) (- (131953125 / 67108864)) 14 0 =
     Some (0, 0, - (33554432 / 43984375)) \<and>
   linear_range_end 0 (- (33554432 / 43984375)) - linear_range_start 0 (- (33554432 / 43984375)) =
     - (134217728 / 43984375)"
proof (intro conjI)
  show "max_electrons_per_pixel (usage_args\<lparr>width := 65536, height := 32768\<rparr>) =
     Some (- (131953125 / 67108864))"
    by (simp add: max_electrons_per_pixel_def mid_tone_electrons_per_pixel_def
      mid_tone_exposure_def pixel_area_um2_def int_mul_def fdiv_def
      kEffectiveQuantumEfficiency_def kPhotonsPerLxSPerUm2_def usage_args_def
      kSRgbTransferFunction_def float_of_int_INT_MIN float_of_int_small)
  show "sample_noise (usage_args\<lparr>width := 65536, height := 32768\<rparr>) (- (131953125 / 67108864)) 14 0 =
     Some (0, 0, - (33554432 / 43984375))"
    by (simp add: sample_noise_def sample_x_def fdiv_def float_of_int_small usage_args_def
      kSRgbTransferFunction_def srgb_to_linear_def noise_in_electrons_def sqrtf_def
      kInputReferredReadNoise_def kPhotoResponseNonUniformity_def sqrt_9_4)
  show "linear_range_end 0 (- (33554432 / 43984375)) - linear_range_start 0 (- (33554432 / 43984375)) =
     - (134217728 / 43984375)"
    by (simp add: linear_range_end_def linear_range_start_def minf_def maxf_def)
qed




text \<open>
  C1, as amended.  In a descriptor that a call on positive sizes and ISO and a curve of
  the catalogue returns, the noise amplitude of row \<open>i\<close> is the amplitude of the reference
  pipeline at the sample point \<open>i / 13\<close>, clamped from above at 255.  The reference takes
  the ISO setting and the number of pixels as the floats that the code converts them to.
\<close>

theorem emitted_noise_is_clamped_reference:
  assumes "generate_photon_noise args fg = Some fg'"
    and "0 < width args" "0 < height args" "0 < iso_setting args"
    and "width args * height args \<le> INT_MAX"
    and "transfer_function args \<in> set transfer_function_catalog"
    and "i < 14"
  shows "\<exists>a. reference_noise_amplitude (transfer_function args)
               (float_of_int (iso_setting args)) (float_of_int (width args * height args)) i =
               Some a \<and>
             snd (scaling_points_y fg' ! i) = min 255 a"
proof -
  from scaling_point_generated[OF assms] obtain m en where
    m: "m = 0.20 * 11260 * (10 / float_of_int (iso_setting args)) *
                 (36000 * 24000 / float_of_int (width args * height args)) /
                 mid_tone (transfer_function args)" and
    en: "encoded_noise args m 14 (int i) = Some (real i / 13, en)" and
    row: "scaling_points_y fg' ! i =
            (round (255 * (real i / 13)), min 255 (round (255 * 7.88 * en)))"
    by blast
  from encoded_noise_reference[OF en assms(7) m]
  have "reference_noise_amplitude (transfer_function args)
          (float_of_int (iso_setting args)) (float_of_int (width args * height args)) i =
        Some (round (255 * 7.88 * en))"
    by (simp add: reference_noise_amplitude_def)
  moreover have "snd (scaling_points_y fg' ! i) = min 255 (round (255 * 7.88 * en))"
    by (simp add: row)
  ultimately show ?thesis by blast
qed

theorem emitted_noise_is_clamped_reference_witness:
  "map_option snd (emitted_point usage_args blank_film_grain 5) =
   map_option (min 255) (reference_noise_amplitude kSRgbTransferFunction 25600 (3840 * 2160) 5)"
proof -
  from usage_defined obtain fg' where
    g: "generate_photon_noise usage_args blank_film_grain = Some fg'" by blast
  have "0 < width usage_args" "0 < height usage_args" "0 < iso_setting usage_args"
    "width usage_args * height usage_args \<le> INT_MAX"
    "transfer_function usage_args \<in> set transfer_function_catalog"
    by (simp_all add: usage_args_def transfer_function_catalog_def INT_MAX_def)
  from emitted_noise_is_clamped_reference[OF g this, of 5] obtain a where
    a: "reference_noise_amplitude (transfer_function usage_args)
          (float_of_int (iso_setting usage_args))
          (float_of_int (width usage_args * height usage_args)) 5 = Some a"
      "snd (scaling_points_y fg' ! 5) = min 255 a"
    by auto
  have "reference_noise_amplitude kSRgbTransferFunction 25600 (3840 * 2160) 5 = Some a"
    using a(1) by (simp add: usage_args_def float_of_int_small)
  then show ?thesis by (simp add: emitted_point_def g a(2))
qed

text \<open>
  Without the clamp the equation fails: at ISO 10000000 the reference pipeline rounds to
  2313 in row 0 and the descriptor holds 255.
\<close>

theorem emitted_noise_not_reference_round:
  "emitted_point (usage_args\<lparr>iso_setting := 10000000\<rparr>) blank_film_grain 0 = Some (0, 255) \<and>
   reference_noise_amplitude kSRgbTransferFunction 10000000 (3840 * 2160) 0 = Some 2313"
proof
  let ?args = "usage_args\<lparr>iso_setting := 10000000\<rparr>"
  have "generate_photon_noise ?args blank_film_grain \<noteq> None"
    by (rule generate_photon_noise_defined)
      (simp_all add: usage_args_def blank_film_grain_def transfer_function_catalog_def INT_MAX_def)
  then obtain fg' where g: "generate_photon_noise ?args blank_film_grain = Some fg'" by blast
  have v: "0 < width ?args" "0 < height ?args" "0 < iso_setting ?args"
    "width ?args * height ?args \<le> INT_MAX"
    "transfer_function ?args \<in> set transfer_function_catalog"
    by (simp_all add: usage_args_def transfer_function_catalog_def INT_MAX_def)
  have i: "(0::nat) < 14" by simp
  from scaling_point_generated[OF g v i] obtain m en where
    m: "m = 0.20 * 11260 * (10 / float_of_int (iso_setting ?args)) *
                 (36000 * 24000 / float_of_int (width ?args * height ?args)) /
                 mid_tone (transfer_function ?args)" and
    en: "encoded_noise ?args m 14 (int 0) = Some (real 0 / 13, en)" and
    row: "scaling_points_y fg' ! 0 =
            (round (255 * (real 0 / 13)), min 255 (round (255 * 7.88 * en)))"
    by blast
  from encoded_noise_reference[OF en i m]
  have "reference_encoded_noise kSRgbTransferFunction 10000000 (3840 * 2160) 0 = Some en"
    by (simp add: usage_args_def float_of_int_small)
  then have "en = 648 / 563" using reference_at_iso_10000000 by simp
  then have "scaling_points_y fg' ! 0 = (0, 255)" by (simp add: row round_def)
  then show "emitted_point ?args blank_film_grain 0 = Some (0, 255)"
    by (simp add: emitted_point_def g)
next
  show "reference_noise_amplitude kSRgbTransferFunction 10000000 (3840 * 2160) 0 = Some 2313"
    using reference_at_iso_10000000 by (simp add: reference_noise_amplitude_def round_def)
qed

text \<open>
  C4, as amended.  For each of the five curves of the catalogue and
  \<open>0 \<le> a \<le> b \<le> 1\<close>: \<open>to_linear\<close> and \<open>from_linear\<close> are defined at \<open>a\<close> and \<open>b\<close>
  and do not decrease from \<open>a\<close> to \<open>b\<close> by more than \<open>1 / 10000\<close>;
  \<open>from_linear (to_linear a)\<close> and \<open>to_linear (from_linear a)\<close> are defined and within
  \<open>1 / 10000\<close> of \<open>a\<close>.  Float arithmetic is taken exactly.  Non-decreasing without
  the allowance does not hold: the two branches of \<open>srgb_from_linear\<close> do not meet at
  the break point, and the curve steps down just above \<open>0.0031308\<close>, from
  \<open>12.92 * 0.0031308 = 0.040449936\<close> to about \<open>0.040449920\<close>.
\<close>

theorem transfer_functions_almost_inverse:
  assumes "tf \<in> set transfer_function_catalog"
    and "0 \<le> a" "a \<le> b" "b \<le> 1"
  shows "\<exists>ta tb fa fb r s.
           to_linear tf a = Some ta \<and> to_linear tf b = Some tb \<and> ta \<le> tb + 1 / 10000 \<and>
           from_linear tf a = Some fa \<and> from_linear tf b = Some fb \<and>
           fa \<le> fb + 1 / 10000 \<and>
           from_linear tf ta = Some r \<and> \<bar>r - a\<bar> \<le> 1 / 10000 \<and>
           to_linear tf fa = Some s \<and> \<bar>s - a\<bar> \<le> 1 / 10000"
  using assms(1)
proof (cases rule: catalog_cases)
  case 1
  then show ?thesis
    using gamma22_inverse_pair[OF assms(2,3)] by (simp add: kGamma22TransferFunction_def)
next
  case 2
  then show ?thesis
    using gamma28_inverse_pair[OF assms(2,3)] by (simp add: kGamma28TransferFunction_def)
next
  case 3
  then show ?thesis
    using srgb_inverse_pair[OF assms(2,3,4)] by (simp add: kSRgbTransferFunction_def)
next
  case 4
  then show ?thesis
    using pq_inverse_pair[OF assms(2,3,4)] by (simp add: kPqTransferFunction_def)
next
  case 5
  then show ?thesis
    using hlg_inverse_pair[OF assms(2,3,4)] by (simp add: kHlgTransferFunction_def)
qed

theorem transfer_functions_almost_inverse_witness:
  "\<exists>ta tb fa fb r s.
     to_linear kHlgTransferFunction (1 / 2) = Some ta \<and>
     to_linear kHlgTransferFunction 1 = Some tb \<and> ta \<le> tb + 1 / 10000 \<and>
     from_linear kHlgTransferFunction (1 / 2) = Some fa \<and>
     from_linear kHlgTransferFunction 1 = Some fb \<and> fa \<le> fb + 1 / 10000 \<and>
     from_linear kHlgTransferFunction ta = Some r \<and> \<bar>r - 1 / 2\<bar> \<le> 1 / 10000 \<and>
     to_linear kHlgTransferFunction fa = Some s \<and> \<bar>s - 1 / 2\<bar> \<le> 1 / 10000"
proof -
  have "kHlgTransferFunction \<in> set transfer_function_catalog"
    by (simp add: transfer_function_catalog_def)
  from transfer_functions_almost_inverse[OF this, of "1 / 2" 1] show ?thesis by simp
qed

text \<open>
  Without the allowance the order fails: \<open>srgb_from_linear\<close> takes the linear branch
  at \<open>0.0031308\<close> and the power branch at \<open>0.003130801\<close>, and returns less at the
  larger argument.
\<close>

theorem srgb_from_linear_not_monotone:
  "kSRgbTransferFunction \<in> set transfer_function_catalog \<and>
   (0 :: real) \<le> 31308 / 10000000 \<and>
   (31308 / 10000000 :: real) \<le> 3130801 / 1000000000 \<and>
   (3130801 / 1000000000 :: real) \<le> 1 \<and>
   (\<exists>fa fb. from_linear kSRgbTransferFunction (31308 / 10000000) = Some fa \<and>
      from_linear kSRgbTransferFunction (3130801 / 1000000000) = Some fb \<and> fb < fa)"
proof -
  have c: "kSRgbTransferFunction \<in> set transfer_function_catalog"
    by (simp add: transfer_function_catalog_def)
  have fa: "from_linear kSRgbTransferFunction (31308 / 10000000) = Some (12.92 * (31308 / 10000000))"
    using srgb_from_linear_eq(1)[of "31308 / 10000000"]
    by (simp add: kSRgbTransferFunction_def)
  have fb: "from_linear kSRgbTransferFunction (3130801 / 1000000000) =
      Some (1.055 * (3130801 / 1000000000) powr (5 / 12) - 0.055)"
    using srgb_from_linear_eq(2)[of "3130801 / 1000000000"]
    by (simp add: kSRgbTransferFunction_def)
  have lt: "1.055 * (3130801 / 1000000000) powr (5 / 12) - 0.055
      < (12.92 * (31308 / 10000000) :: real)"
    using srgb_step_number by simp
  from fa fb lt have "\<exists>fa fb. from_linear kSRgbTransferFunction (31308 / 10000000) = Some fa \<and>
      from_linear kSRgbTransferFunction (3130801 / 1000000000) = Some fb \<and> fb < fa" by blast
  with c show ?thesis by simp
qed

end
